theory Spec2Isabelle
  imports Main "HOL-Library.List_Lexorder" "HOL-Library.Product_Lexorder"
begin

section \<open>JavaScript strings\<close>

text \<open>
  A JavaScript string is a sequence of UTF-16 code units. The model keeps that reading:
  a string is a list of code units (natural numbers), so \<open>length\<close>, \<open>includes\<close>,
  \<open>endsWith\<close>, \<open>split\<close> and the default \<open>sort\<close> order (code unit by code unit) are the
  ones of the source language. ASCII literals are written \<open>js ''...''\<close>; the Chinese
  messages of the source are written as their code units, with an English gloss.
\<close>

type_synonym jschar = nat
type_synonym jsstring = "jschar list"

definition js :: "string \<Rightarrow> jsstring" where
  "js s = map of_char s"

definition startsWith :: "jsstring \<Rightarrow> jsstring \<Rightarrow> bool" where
  "startsWith s p = (take (length p) s = p)"

definition endsWith :: "jsstring \<Rightarrow> jsstring \<Rightarrow> bool" where
  "endsWith s p = (length p \<le> length s \<and> drop (length s - length p) s = p)"

fun includes_js :: "jsstring \<Rightarrow> jsstring \<Rightarrow> bool" where
  "includes_js [] p = (p = [])"
| "includes_js (c # cs) p = (startsWith (c # cs) p \<or> includes_js cs p)"

text \<open>\<open>s.split(sep)\<close> for a one-character separator: never the empty list.\<close>

fun split :: "jsstring \<Rightarrow> jschar \<Rightarrow> jsstring list" where
  "split [] sep = [[]]"
| "split (c # cs) sep =
     (if c = sep then [] # split cs sep
      else (case split cs sep of
              p # ps \<Rightarrow> (c # p) # ps
            | [] \<Rightarrow> [[c]]))"

text \<open>\<open>String(n)\<close> for a non-negative integer, and for any integer.\<close>

fun digits :: "nat \<Rightarrow> jsstring" where
  "digits n = (if n < 10 then [48 + n] else digits (n div 10) @ [48 + n mod 10])"

declare digits.simps [simp del]

definition String_int :: "int \<Rightarrow> jsstring" where
  "String_int i = (if i < 0 then js ''-'' @ digits (nat (- i)) else digits (nat i))"

definition padStart :: "jsstring \<Rightarrow> nat \<Rightarrow> jsstring \<Rightarrow> jsstring" where
  "padStart s n pad =
     (if n \<le> length s \<or> pad = [] then s
      else take (n - length s) (concat (replicate (n - length s) pad)) @ s)"

text \<open>
  \<open>s.trim()\<close>: the white space and line terminators of ECMAScript, each a single
  code unit.
\<close>

definition is_js_space :: "jschar \<Rightarrow> bool" where
  "is_js_space c =
     (c \<in> {0x09, 0x0A, 0x0B, 0x0C, 0x0D, 0x20, 0xA0, 0x1680, 0x2028, 0x2029,
            0x202F, 0x205F, 0x3000, 0xFEFF}
      \<or> (0x2000 \<le> c \<and> c \<le> 0x200A))"

definition trim :: "jsstring \<Rightarrow> jsstring" where
  "trim s = rev (dropWhile is_js_space (rev (dropWhile is_js_space s)))"

section \<open>The messages of the service\<close>

definition msg_runtime_invalid :: jsstring where \<comment> \<open>extension runtime invalid, possibly reloading\<close>
  "msg_runtime_invalid =
     [0x6269, 0x5C55, 0x8FD0, 0x884C, 0x65F6, 0x65E0, 0x6548, 0xFF0C, 0x53EF, 0x80FD, 0x6B63, 0x5728, 0x91CD, 0x65B0, 0x52A0, 0x8F7D]"

definition msg_timeout :: jsstring where \<comment> \<open>request timed out\<close>
  "msg_timeout =
     [0x8BF7, 0x6C42, 0x8D85, 0x65F6]"

definition msg_comm_failed :: jsstring where \<comment> \<open>extension communication failed\<close>
  "msg_comm_failed =
     [0x6269, 0x5C55, 0x901A, 0x4FE1, 0x5931, 0x8D25]"

definition msg_bg_unavailable :: jsstring where \<comment> \<open>extension background script temporarily unavailable, retry later\<close>
  "msg_bg_unavailable =
     [0x6269, 0x5C55, 0x540E, 0x53F0, 0x811A, 0x672C, 0x6682, 0x65F6, 0x4E0D, 0x53EF, 0x7528, 0xFF0C, 0x8BF7, 0x7A0D, 0x540E, 0x91CD, 0x8BD5]"

definition marker_bg_unavailable :: jsstring where \<comment> \<open>extension background script temporarily unavailable\<close>
  "marker_bg_unavailable =
     [0x6269, 0x5C55, 0x540E, 0x53F0, 0x811A, 0x672C, 0x6682, 0x65F6, 0x4E0D, 0x53EF, 0x7528]"

definition msg_no_response :: jsstring where \<comment> \<open>no response received\<close>
  "msg_no_response =
     [0x672A, 0x6536, 0x5230, 0x54CD, 0x5E94]"

definition msg_request_failed :: jsstring where \<comment> \<open>request failed\<close>
  "msg_request_failed =
     [0x8BF7, 0x6C42, 0x5931, 0x8D25]"

definition msg_webdav_request_failed :: jsstring where \<comment> \<open>WebDAV request failed\<close>
  "msg_webdav_request_failed =
     js ''WebDAV '' @ [0x8BF7, 0x6C42, 0x5931, 0x8D25]"

definition msg_not_enabled :: jsstring where \<comment> \<open>WebDAV backup not enabled\<close>
  "msg_not_enabled =
     js ''WebDAV '' @ [0x5907, 0x4EFD, 0x672A, 0x542F, 0x7528]"

definition msg_cannot_create_dir :: jsstring where \<comment> \<open>cannot create backup directory\<close>
  "msg_cannot_create_dir =
     [0x65E0, 0x6CD5, 0x521B, 0x5EFA, 0x5907, 0x4EFD, 0x76EE, 0x5F55]"

definition msg_upload_ok :: jsstring where \<comment> \<open>backup uploaded: \<close>
  "msg_upload_ok =
     [0x5907, 0x4EFD, 0x4E0A, 0x4F20, 0x6210, 0x529F] @ js '': ''"

definition msg_upload_failed :: jsstring where \<comment> \<open>upload failed: \<close>
  "msg_upload_failed =
     [0x4E0A, 0x4F20, 0x5931, 0x8D25] @ js '': ''"

definition diag_401 :: jsstring where \<comment> \<open>authentication failed, check user name and password\<close>
  "diag_401 =
     js '' - '' @ [0x8BA4, 0x8BC1, 0x5931, 0x8D25, 0xFF0C, 0x8BF7, 0x68C0, 0x67E5, 0x7528, 0x6237, 0x540D, 0x548C, 0x5BC6, 0x7801]"

definition diag_403 :: jsstring where \<comment> \<open>insufficient permission, check account permissions\<close>
  "diag_403 =
     js '' - '' @ [0x6743, 0x9650, 0x4E0D, 0x8DB3, 0xFF0C, 0x8BF7, 0x68C0, 0x67E5, 0x8D26, 0x53F7, 0x6743, 0x9650]"

definition diag_404 :: jsstring where \<comment> \<open>path does not exist, check server address and backup path\<close>
  "diag_404 =
     js '' - '' @ [0x8DEF, 0x5F84, 0x4E0D, 0x5B58, 0x5728, 0xFF0C, 0x8BF7, 0x68C0, 0x67E5, 0x670D, 0x52A1, 0x5668, 0x5730, 0x5740, 0x548C, 0x5907, 0x4EFD, 0x8DEF, 0x5F84]"

definition diag_423 :: jsstring where \<comment> \<open>resource locked, file in use or server busy, retry later\<close>
  "diag_423 =
     js '' - '' @ [0x8D44, 0x6E90, 0x88AB, 0x9501, 0x5B9A, 0xFF0C, 0x6587, 0x4EF6, 0x53EF, 0x80FD, 0x6B63, 0x5728, 0x88AB, 0x4F7F, 0x7528, 0x6216, 0x670D, 0x52A1, 0x5668, 0x7E41, 0x5FD9, 0xFF0C, 0x8BF7, 0x7A0D, 0x540E, 0x91CD, 0x8BD5]"

definition diag_507 :: jsstring where \<comment> \<open>insufficient storage\<close>
  "diag_507 =
     js '' - '' @ [0x5B58, 0x50A8, 0x7A7A, 0x95F4, 0x4E0D, 0x8DB3]"

definition diag_500 :: jsstring where \<comment> \<open>internal server error\<close>
  "diag_500 =
     js '' - '' @ [0x670D, 0x52A1, 0x5668, 0x5185, 0x90E8, 0x9519, 0x8BEF]"

definition diag_502 :: jsstring where \<comment> \<open>gateway error, server temporarily unavailable\<close>
  "diag_502 =
     js '' - '' @ [0x7F51, 0x5173, 0x9519, 0x8BEF, 0xFF0C, 0x670D, 0x52A1, 0x5668, 0x6682, 0x65F6, 0x4E0D, 0x53EF, 0x7528]"

definition diag_503 :: jsstring where \<comment> \<open>service unavailable, server temporarily overloaded\<close>
  "diag_503 =
     js '' - '' @ [0x670D, 0x52A1, 0x4E0D, 0x53EF, 0x7528, 0xFF0C, 0x670D, 0x52A1, 0x5668, 0x6682, 0x65F6, 0x8FC7, 0x8F7D]"

definition msg_upload_error :: jsstring where \<comment> \<open>upload error: \<close>
  "msg_upload_error =
     [0x4E0A, 0x4F20, 0x9519, 0x8BEF] @ js '': ''"

definition trigger_manual :: jsstring where \<comment> \<open>manual backup\<close>
  "trigger_manual =
     [0x624B, 0x52A8, 0x5907, 0x4EFD]"

definition trigger_data_change :: jsstring where \<comment> \<open>data change\<close>
  "trigger_data_change =
     [0x6570, 0x636E, 0x53D8, 0x52A8]"

definition msg_unknown_error :: jsstring where \<comment> \<open>unknown error\<close>
  "msg_unknown_error =
     [0x672A, 0x77E5, 0x9519, 0x8BEF]"

definition msg_sync_exception :: jsstring where \<comment> \<open>sync exception: \<close>
  "msg_sync_exception =
     [0x540C, 0x6B65, 0x5F02, 0x5E38] @ js '': ''"

definition msg_sync_check_failed :: jsstring where \<comment> \<open>sync check failed: \<close>
  "msg_sync_check_failed =
     [0x540C, 0x6B65, 0x68C0, 0x67E5, 0x5931, 0x8D25] @ js '': ''"

definition msg_list_ok :: jsstring where \<comment> \<open>backup list fetched\<close>
  "msg_list_ok =
     [0x83B7, 0x53D6, 0x5907, 0x4EFD, 0x5217, 0x8868, 0x6210, 0x529F]"

definition msg_list_failed :: jsstring where \<comment> \<open>list failed: \<close>
  "msg_list_failed =
     [0x83B7, 0x53D6, 0x5217, 0x8868, 0x5931, 0x8D25] @ js '': ''"

definition msg_list_error :: jsstring where \<comment> \<open>list error: \<close>
  "msg_list_error =
     [0x83B7, 0x53D6, 0x5217, 0x8868, 0x9519, 0x8BEF] @ js '': ''"


section \<open>PathCodec: normalizePath\<close>

text \<open>
  \<open>url.replace(/\/$/, '')\<close> removes the last character when it is a slash; then the
  path gets a leading and a trailing slash when it lacks one.
\<close>

definition normalizePath :: "jsstring \<Rightarrow> jsstring \<Rightarrow> jsstring" where
  "normalizePath url path =
     (let baseUrl = (if endsWith url (js ''/'') then butlast url else url);
          normalizedPath = (if startsWith path (js ''/'') then path else js ''/'' @ path);
          finalPath = (if endsWith normalizedPath (js ''/'') then normalizedPath
                       else normalizedPath @ js ''/'')
      in baseUrl @ finalPath)"

section \<open>The platform's Date\<close>

text \<open>
  \<open>new Date(t)\<close> and its local-time getters, as ECMAScript defines them: the local time
  is \<open>t + LocalTZA(t)\<close>, the day number is the floor of the local time over the length of a
  day, and the calendar is the proleptic Gregorian one. The offset \<open>tza\<close> of the host's
  time zone is a parameter; the source does not choose it.
\<close>

record jsdate =
  getFullYear :: int
  getMonth :: int
  getDate :: int
  getHours :: int
  getMinutes :: int
  getSeconds :: int

definition msPerDay :: int where
  "msPerDay = 86400000"

text \<open>Day number since 1970-01-01 to (year, month 1..12, day of month 1..31).\<close>

definition civil_from_days :: "int \<Rightarrow> int \<times> int \<times> int" where
  "civil_from_days z0 =
     (let z = z0 + 719468;
          era = z div 146097;
          doe = z - era * 146097;
          yoe = (doe - doe div 1460 + doe div 36524 - doe div 146096) div 365;
          y = yoe + era * 400;
          doy = doe - (365 * yoe + yoe div 4 - yoe div 100);
          mp = (5 * doy + 2) div 153;
          d = doy - (153 * mp + 2) div 5 + 1;
          m = (if mp < 10 then mp + 3 else mp - 9)
      in (if m \<le> 2 then y + 1 else y, m, d))"

definition new_Date :: "(int \<Rightarrow> int) \<Rightarrow> int \<Rightarrow> jsdate" where
  "new_Date tza t =
     (let lt = t + tza t;
          (y, m, d) = civil_from_days (lt div msPerDay)
      in \<lparr>getFullYear = y, getMonth = m - 1, getDate = d,
          getHours = (lt div 3600000) mod 24,
          getMinutes = (lt div 60000) mod 60,
          getSeconds = (lt div 1000) mod 60\<rparr>)"

section \<open>Data model\<close>

datatype error = Error (err_message: jsstring)

record config =
  enabled :: bool
  server_url :: jsstring
  username :: jsstring
  password :: jsstring
  backup_path :: jsstring
  auto_sync_on_change :: bool
  last_backup_time :: int

definition default_config :: config where
  "default_config =
     \<lparr>enabled = False, server_url = [], username = [], password = [],
      backup_path = js ''/webdav'', auto_sync_on_change = False, last_backup_time = 0\<rparr>"

record log_entry =
  log_timestamp :: int
  log_trigger :: jsstring
  log_success :: bool
  log_message :: jsstring

record webdav_result =
  res_success :: bool
  res_message :: jsstring
  res_files :: "jsstring list option"

record backup_data =
  version :: jsstring
  timestamp :: int
  accounts :: jsstring
  preferences :: jsstring

record request =
  req_url :: jsstring
  req_method :: jsstring
  req_headers :: "(jsstring \<times> jsstring) list"
  req_body :: "jsstring option"

record response =
  ok :: bool
  status :: nat
  statusText :: jsstring
  bodyText :: jsstring

text \<open>
  What one \<open>chrome.runtime.sendMessage\<close> exchange can come to, in the order the promise
  body of sendWebDAVRequest tests it: no runtime id, the 30 second timer firing first,
  \<open>chrome.runtime.lastError\<close> set (its message possibly absent), no response object, a
  response without \<open>success\<close> (its message possibly absent), or a delivered HTTP response.
\<close>

datatype channel_outcome =
    RuntimeInvalid
  | TimedOut
  | LastError "jsstring option"
  | NoResponse
  | Failed "jsstring option"
  | Delivered response

text \<open>A parsed XML document: elements with their qualified name and children, and text.\<close>

datatype xml = Element jsstring "xml list" | TextNode jsstring

text \<open>
  The collaborators the service does not own. The proxy channel and \<open>fetch\<close> answer a
  request knowing every attempt made before it; \<open>clock\<close> gives the successive readings of
  \<open>Date.now()\<close>; \<open>storage_fault n\<close> is the error, if any, with which the n-th access to
  \<open>chrome.storage.local\<close> rejects; \<open>exports\<close> is the outcome of awaiting both data
  exports together.
\<close>

record env =
  proxied :: bool
  channel :: "request list \<Rightarrow> request \<Rightarrow> channel_outcome"
  fetch :: "request list \<Rightarrow> request \<Rightarrow> error + response"
  clock :: "nat \<Rightarrow> int"
  tza :: "int \<Rightarrow> int"
  storage_fault :: "nat \<Rightarrow> error option"
  btoa :: "jsstring \<Rightarrow> error + jsstring"
  exports :: "error + jsstring \<times> jsstring"
  stringify :: "backup_data \<Rightarrow> jsstring"
  domParser :: "jsstring \<Rightarrow> xml"
  decodeURIComponent :: "jsstring \<Rightarrow> error + jsstring"

text \<open>
  The mutable state: the service's configuration cache (\<open>this.config\<close>), the two keys of
  the durable store, and what the service has done to the outside so far: every attempt
  to dispatch a request, every delay waited, and how many times the clock and the store
  were used.
\<close>

record state =
  cache :: "config option"
  webdav_config :: "config option"
  webdav_sync_logs :: "log_entry list option"
  trace :: "request list"
  sleeps :: "nat list"
  ticks :: nat
  storage_ops :: nat

definition Date_now :: "env \<Rightarrow> state \<Rightarrow> int \<times> state" where
  "Date_now env st = (clock env (ticks st), st\<lparr>ticks := Suc (ticks st)\<rparr>)"

definition storage_access :: "env \<Rightarrow> state \<Rightarrow> error option \<times> state" where
  "storage_access env st =
     (storage_fault env (storage_ops st), st\<lparr>storage_ops := Suc (storage_ops st)\<rparr>)"

section \<open>ConfigStore: getConfig and saveConfig\<close>

definition getConfig :: "env \<Rightarrow> state \<Rightarrow> (error + config) \<times> state" where
  "getConfig env st =
     (case cache st of
        Some c \<Rightarrow> (Inr c, st)
      | None \<Rightarrow>
          (case storage_access env st of
             (Some e, st1) \<Rightarrow> (Inl e, st1)
           | (None, st1) \<Rightarrow>
               (let c = (case webdav_config st1 of Some c \<Rightarrow> c | None \<Rightarrow> default_config)
                in (Inr c, st1\<lparr>cache := Some c\<rparr>))))"

text \<open>The catch block of saveConfig turns a rejected write into \<open>false\<close>.\<close>

definition saveConfig :: "env \<Rightarrow> config \<Rightarrow> state \<Rightarrow> bool \<times> state" where
  "saveConfig env c st =
     (case storage_access env st of
        (Some e, st1) \<Rightarrow> (False, st1)
      | (None, st1) \<Rightarrow> (True, st1\<lparr>webdav_config := Some c, cache := Some c\<rparr>))"

section \<open>RequestTransport: sendWebDAVRequest\<close>

definition createHeaders ::
  "env \<Rightarrow> config \<Rightarrow> jsstring option \<Rightarrow> error + (jsstring \<times> jsstring) list" where
  "createHeaders env c contentType =
     (case btoa env (username c @ js '':'' @ password c) of
        Inl e \<Rightarrow> Inl e
      | Inr b \<Rightarrow>
          Inr ([(js ''Authorization'', js ''Basic '' @ b),
                (js ''User-Agent'', js ''OneAPIHub-WebDAV-Client/1.0''),
                (js ''Accept'', js ''*/*'')]
               @ (case contentType of
                    None \<Rightarrow> []
                  | Some ct \<Rightarrow> if ct = [] then [] else [(js ''Content-Type'', ct)])))"

definition or_default :: "jsstring option \<Rightarrow> jsstring \<Rightarrow> jsstring" where
  "or_default m d = (case m of None \<Rightarrow> d | Some s \<Rightarrow> if s = [] then d else s)"

text \<open>
  One pass through the try block of the retry loop: what the attempt comes to, knowing
  the attempts made before it, and the attempt itself, which is recorded.
\<close>

definition attempt_result :: "env \<Rightarrow> request list \<Rightarrow> request \<Rightarrow> error + response" where
  "attempt_result env history req =
     (if proxied env then
        (case channel env history req of
           RuntimeInvalid \<Rightarrow> Inl (Error msg_runtime_invalid)
         | TimedOut \<Rightarrow> Inl (Error msg_timeout)
         | LastError m \<Rightarrow>
             (let errorMsg = or_default m msg_comm_failed
              in if includes_js errorMsg (js ''Receiving end does not exist'')
                 then Inl (Error msg_bg_unavailable)
                 else Inl (Error errorMsg))
         | NoResponse \<Rightarrow> Inl (Error msg_no_response)
         | Failed m \<Rightarrow> Inl (Error (or_default m msg_request_failed))
         | Delivered responseData \<Rightarrow> Inr responseData)
      else fetch env history req)"

definition attempt_once :: "env \<Rightarrow> request \<Rightarrow> state \<Rightarrow> (error + response) \<times> state" where
  "attempt_once env req st =
     (attempt_result env (trace st) req, st\<lparr>trace := trace st @ [req]\<rparr>)"

definition maxRetries :: nat where
  "maxRetries = 3"

definition sleep :: "nat \<Rightarrow> state \<Rightarrow> state" where
  "sleep ms st = st\<lparr>sleeps := sleeps st @ [ms]\<rparr>"

function sendLoop ::
  "env \<Rightarrow> request \<Rightarrow> nat \<Rightarrow> error option \<Rightarrow> state \<Rightarrow> (error + response) \<times> state" where
  "sendLoop env req attempt lastError st =
     (if attempt \<le> maxRetries then
        (case attempt_once env req st of
           (Inr resp, st1) \<Rightarrow> (Inr resp, st1)
         | (Inl err, st1) \<Rightarrow>
             if attempt < maxRetries \<and> includes_js (err_message err) marker_bg_unavailable
             then sendLoop env req (attempt + 1) (Some err) (sleep (1000 * attempt) st1)
             else (Inl err, st1))
      else (Inl (case lastError of Some e \<Rightarrow> e | None \<Rightarrow> Error msg_webdav_request_failed), st))"
  by pat_completeness auto
termination
  by (relation "measure (\<lambda>(env, req, attempt, lastError, st). Suc maxRetries - attempt)") auto

declare sendLoop.simps [simp del]

definition sendWebDAVRequest :: "env \<Rightarrow> request \<Rightarrow> state \<Rightarrow> (error + response) \<times> state" where
  "sendWebDAVRequest env req st = sendLoop env req 1 None st"

section \<open>DirectoryProvisioner\<close>

definition propfind_resourcetype :: jsstring where
  "propfind_resourcetype =
     js ''<?xml version=\"1.0\" encoding=\"utf-8\"?>'' @ [0x0A]
     @ js ''<propfind xmlns=\"DAV:\">'' @ [0x0A]
     @ js ''  <prop>'' @ [0x0A]
     @ js ''    <resourcetype/>'' @ [0x0A]
     @ js ''  </prop>'' @ [0x0A]
     @ js ''</propfind>''"

text \<open>Both functions end in a catch block that returns \<open>false\<close>.\<close>

definition checkDirectoryExists :: "env \<Rightarrow> config \<Rightarrow> jsstring \<Rightarrow> state \<Rightarrow> bool \<times> state" where
  "checkDirectoryExists env c dirPath st =
     (let url = normalizePath (server_url c) dirPath
      in case createHeaders env c (Some (js ''application/xml'')) of
           Inl e \<Rightarrow> (False, st)
         | Inr h \<Rightarrow>
             (case sendWebDAVRequest env
                     \<lparr>req_url = url, req_method = js ''PROPFIND'',
                      req_headers = h @ [(js ''Depth'', js ''0'')],
                      req_body = Some propfind_resourcetype\<rparr> st of
                (Inr resp, st1) \<Rightarrow> (ok resp, st1)
              | (Inl e, st1) \<Rightarrow> (False, st1)))"

definition createDirectory :: "env \<Rightarrow> config \<Rightarrow> jsstring \<Rightarrow> state \<Rightarrow> bool \<times> state" where
  "createDirectory env c dirPath st =
     (let url = normalizePath (server_url c) dirPath
      in case createHeaders env c None of
           Inl e \<Rightarrow> (False, st)
         | Inr h \<Rightarrow>
             (case sendWebDAVRequest env
                     \<lparr>req_url = url, req_method = js ''MKCOL'', req_headers = h,
                      req_body = None\<rparr> st of
                (Inr resp, st1) \<Rightarrow> (ok resp \<or> status resp = 405, st1)
              | (Inl e, st1) \<Rightarrow> (False, st1)))"

text \<open>The for loop of ensureDirectoryExists over \<open>pathParts\<close>, with \<open>currentPath\<close>.\<close>

fun ensure_parts ::
  "env \<Rightarrow> config \<Rightarrow> jsstring list \<Rightarrow> jsstring \<Rightarrow> state \<Rightarrow> bool \<times> state" where
  "ensure_parts env c [] currentPath st = (True, st)"
| "ensure_parts env c (part # parts) currentPath st =
     (let currentPath1 = currentPath @ js ''/'' @ part
      in case checkDirectoryExists env c currentPath1 st of
           (True, st1) \<Rightarrow> ensure_parts env c parts currentPath1 st1
         | (False, st1) \<Rightarrow>
             (case createDirectory env c currentPath1 st1 of
                (True, st2) \<Rightarrow> ensure_parts env c parts currentPath1 st2
              | (False, st2) \<Rightarrow> (False, st2)))"

definition ensureDirectoryExists :: "env \<Rightarrow> config \<Rightarrow> jsstring \<Rightarrow> state \<Rightarrow> bool \<times> state" where
  "ensureDirectoryExists env c dirPath st =
     (case checkDirectoryExists env c dirPath st of
        (True, st1) \<Rightarrow> (True, st1)
      | (False, st1) \<Rightarrow>
          (let pathParts = filter (\<lambda>part. length part > 0) (split dirPath 0x2F)
           in ensure_parts env c pathParts [] st1))"

section \<open>SyncAuditLog: addSyncLog\<close>

text \<open>
  The whole body is inside a try block whose catch only writes to the console, so a
  rejected read or write of the store leaves the log as it was.
\<close>

definition addSyncLog :: "env \<Rightarrow> jsstring \<Rightarrow> bool \<Rightarrow> jsstring \<Rightarrow> state \<Rightarrow> state" where
  "addSyncLog env trig succ msg st =
     (case storage_access env st of
        (Some e, st1) \<Rightarrow> st1
      | (None, st1) \<Rightarrow>
          (let logs = (case webdav_sync_logs st1 of Some l \<Rightarrow> l | None \<Rightarrow> []);
               (now, st2) = Date_now env st1;
               newLog = \<lparr>log_timestamp = now, log_trigger = trig, log_success = succ,
                         log_message = msg\<rparr>;
               pushed = logs @ [newLog];
               kept = (if length pushed > 50 then drop (length pushed - 50) pushed
                       else pushed)
           in case storage_access env st2 of
                (Some e, st3) \<Rightarrow> st3
              | (None, st3) \<Rightarrow> st3\<lparr>webdav_sync_logs := Some kept\<rparr>))"

section \<open>BackupEngine: uploadBackup\<close>

definition backup_filename :: "jsdate \<Rightarrow> jsstring" where
  "backup_filename now =
     (let year = getFullYear now;
          month = padStart (String_int (getMonth now + 1)) 2 (js ''0'');
          day = padStart (String_int (getDate now)) 2 (js ''0'');
          hour = padStart (String_int (getHours now)) 2 (js ''0'');
          minute = padStart (String_int (getMinutes now)) 2 (js ''0'');
          second = padStart (String_int (getSeconds now)) 2 (js ''0'')
      in js ''backup-'' @ String_int year @ js ''-'' @ month @ js ''-'' @ day @ js ''_''
         @ hour @ js ''-'' @ minute @ js ''-'' @ second @ js ''.json'')"

text \<open>The diagnostic built in the else branch of \<open>response.ok\<close>: the switch on the status.\<close>

definition upload_error_message :: "response \<Rightarrow> jsstring" where
  "upload_error_message resp =
     (let errorMessage = msg_upload_failed @ digits (status resp)
      in if status resp = 401 then errorMessage @ diag_401
         else if status resp = 403 then errorMessage @ diag_403
         else if status resp = 404 then errorMessage @ diag_404
         else if status resp = 423 then errorMessage @ diag_423
         else if status resp = 507 then errorMessage @ diag_507
         else if status resp = 500 then errorMessage @ diag_500
         else if status resp = 502 then errorMessage @ diag_502
         else if status resp = 503 then errorMessage @ diag_503
         else if statusText resp \<noteq> [] then errorMessage @ js '' - '' @ statusText resp
         else errorMessage)"

text \<open>
  The try block of uploadBackup. \<open>Inl\<close> is an exception on its way to the catch block.
  The configuration object is the cached one, so the assignment to
  \<open>config.last_backup_time\<close> changes the cache before saveConfig runs.
\<close>

definition upload_try ::
  "env \<Rightarrow> jsstring \<Rightarrow> config \<Rightarrow> state \<Rightarrow> (error + webdav_result) \<times> state" where
  "upload_try env trig c st =
     (case ensureDirectoryExists env c (backup_path c) st of
        (False, st1) \<Rightarrow>
          (Inr \<lparr>res_success = False, res_message = msg_cannot_create_dir, res_files = None\<rparr>,
           st1)
      | (True, st1) \<Rightarrow>
          (case exports env of
             Inl e \<Rightarrow> (Inl e, st1)
           | Inr (accountData, preferencesData) \<Rightarrow>
               (let (t0, st2) = Date_now env st1;
                    backupData = \<lparr>version = js ''1.0'', timestamp = t0,
                                  accounts = accountData, preferences = preferencesData\<rparr>;
                    (backupTimestamp, st3) = Date_now env st2;
                    filename = backup_filename (new_Date (tza env) backupTimestamp);
                    uploadUrl = normalizePath (server_url c) (backup_path c) @ filename
                in case createHeaders env c (Some (js ''application/json'')) of
                     Inl e \<Rightarrow> (Inl e, st3)
                   | Inr h \<Rightarrow>
                       (case sendWebDAVRequest env
                               \<lparr>req_url = uploadUrl, req_method = js ''PUT'',
                                req_headers = h,
                                req_body = Some (stringify env backupData)\<rparr> st3 of
                          (Inl e, st4) \<Rightarrow> (Inl e, st4)
                        | (Inr resp, st4) \<Rightarrow>
                            if ok resp then
                              (let c1 = c\<lparr>last_backup_time := backupTimestamp\<rparr>;
                                   st5 = st4\<lparr>cache := Some c1\<rparr>;
                                   (saved, st6) = saveConfig env c1 st5;
                                   successMessage = msg_upload_ok @ filename;
                                   st7 = addSyncLog env trig True successMessage st6
                               in (Inr \<lparr>res_success = True, res_message = successMessage,
                                        res_files = None\<rparr>, st7))
                            else
                              (let errorMessage = upload_error_message resp;
                                   st5 = addSyncLog env trig False errorMessage st4
                               in (Inr \<lparr>res_success = False, res_message = errorMessage,
                                        res_files = None\<rparr>, st5))))))"

definition uploadBackup ::
  "env \<Rightarrow> jsstring \<Rightarrow> state \<Rightarrow> (error + webdav_result) \<times> state" where
  "uploadBackup env trig st =
     (case getConfig env st of
        (Inl e, st0) \<Rightarrow> (Inl e, st0)
      | (Inr c, st0) \<Rightarrow>
          if \<not> enabled c then
            (Inr \<lparr>res_success = False, res_message = msg_not_enabled, res_files = None\<rparr>, st0)
          else
            (case upload_try env trig c st0 of
               (Inr r, st1) \<Rightarrow> (Inr r, st1)
             | (Inl e, st1) \<Rightarrow>
                 (let errorMessage = msg_upload_error @ err_message e;
                      st2 = addSyncLog env trig False errorMessage st1
                  in (Inr \<lparr>res_success = False, res_message = errorMessage,
                           res_files = None\<rparr>, st2))))"

section \<open>DirectoryListingParser: parseWebDAVResponse\<close>

text \<open>
  \<open>getElementsByTagName\<close> of an element: its descendant elements in document order whose
  qualified name is the given one. Called on the document, the root element counts too.
\<close>

fun descendants :: "xml \<Rightarrow> xml list" where
  "descendants (TextNode t) = []"
| "descendants (Element n cs) =
     concat (map (\<lambda>c. (case c of Element _ _ \<Rightarrow> [c] | TextNode _ \<Rightarrow> []) @ descendants c) cs)"

fun tagName :: "xml \<Rightarrow> jsstring option" where
  "tagName (Element n cs) = Some n"
| "tagName (TextNode t) = None"

fun textContent :: "xml \<Rightarrow> jsstring" where
  "textContent (TextNode t) = t"
| "textContent (Element n cs) = concat (map textContent cs)"

definition getElementsByTagName :: "xml \<Rightarrow> jsstring \<Rightarrow> xml list" where
  "getElementsByTagName e tag = filter (\<lambda>x. tagName x = Some tag) (descendants e)"

definition document_getElementsByTagName :: "xml \<Rightarrow> jsstring \<Rightarrow> xml list" where
  "document_getElementsByTagName root tag =
     filter (\<lambda>x. tagName x = Some tag) (root # descendants root)"

definition possibleResponseTags :: "jsstring list" where
  "possibleResponseTags = [js ''response'', js ''d:response'', js ''D:response'']"

definition possibleHrefTags :: "jsstring list" where
  "possibleHrefTags = [js ''href'', js ''d:href'', js ''D:href'']"

definition possibleDisplayNameTags :: "jsstring list" where
  "possibleDisplayNameTags = [js ''displayname'', js ''d:displayname'', js ''D:displayname'']"

text \<open>The loop that looks for the response elements, one tag after the other.\<close>

fun find_responses :: "xml \<Rightarrow> jsstring list \<Rightarrow> xml list" where
  "find_responses xmlDoc [] = []"
| "find_responses xmlDoc (tag # tags) =
     (let responses = document_getElementsByTagName xmlDoc tag
      in if length responses > 0 then responses else find_responses xmlDoc tags)"

text \<open>
  The two inner loops share their shape: the text of the first element, over the tags in
  order, that exists and has non-empty text content.
\<close>

fun first_text :: "xml \<Rightarrow> jsstring list \<Rightarrow> jsstring option" where
  "first_text resp [] = None"
| "first_text resp (tag # tags) =
     (case getElementsByTagName resp tag of
        [] \<Rightarrow> first_text resp tags
      | el # _ \<Rightarrow> if textContent el \<noteq> [] then Some (textContent el)
                  else first_text resp tags)"

definition entry_filename :: "(jsstring \<Rightarrow> error + jsstring) \<Rightarrow> xml \<Rightarrow> error + jsstring" where
  "entry_filename decode resp =
     (let filename = (case first_text resp possibleDisplayNameTags of
                        Some t \<Rightarrow> trim t
                      | None \<Rightarrow> [])
      in if filename = [] then
           (case first_text resp possibleHrefTags of
              Some t \<Rightarrow> decode (last (split (trim t) 0x2F))
            | None \<Rightarrow> Inr filename)
         else Inr filename)"

definition isDirectory :: "xml \<Rightarrow> bool" where
  "isDirectory resp =
     (case getElementsByTagName resp (js ''resourcetype'') of
        [] \<Rightarrow> False
      | resourceType # _ \<Rightarrow> length (getElementsByTagName resourceType (js ''collection'')) > 0)"

fun collect_files ::
  "(jsstring \<Rightarrow> error + jsstring) \<Rightarrow> xml list \<Rightarrow> jsstring list \<Rightarrow> error + jsstring list" where
  "collect_files decode [] files = Inr files"
| "collect_files decode (resp # rest) files =
     (case entry_filename decode resp of
        Inl e \<Rightarrow> Inl e
      | Inr filename \<Rightarrow>
          if filename \<noteq> [] \<and> \<not> endsWith filename (js ''/'') then
            (if \<not> isDirectory resp then collect_files decode rest (files @ [filename])
             else collect_files decode rest files)
          else collect_files decode rest files)"

text \<open>The parser on the parsed document; any exception ends in the catch block, with [].\<close>

definition parse_document :: "(jsstring \<Rightarrow> error + jsstring) \<Rightarrow> xml \<Rightarrow> jsstring list" where
  "parse_document decode xmlDoc =
     (let responses = find_responses xmlDoc possibleResponseTags
      in if length responses = 0 then []
         else (case collect_files decode responses [] of
                 Inl e \<Rightarrow> []
               | Inr files \<Rightarrow> files))"

definition parseWebDAVResponse :: "env \<Rightarrow> jsstring \<Rightarrow> jsstring list" where
  "parseWebDAVResponse env xmlText =
     parse_document (decodeURIComponent env) (domParser env xmlText)"

section \<open>BackupEngine: getBackupList\<close>

definition propfind_listing :: jsstring where
  "propfind_listing =
     js ''<?xml version=\"1.0\" encoding=\"utf-8\"?>'' @ [0x0A]
     @ js ''<propfind xmlns=\"DAV:\">'' @ [0x0A]
     @ js ''  <prop>'' @ [0x0A]
     @ js ''    <displayname/>'' @ [0x0A]
     @ js ''    <resourcetype/>'' @ [0x0A]
     @ js ''    <getcontentlength/>'' @ [0x0A]
     @ js ''    <getlastmodified/>'' @ [0x0A]
     @ js ''  </prop>'' @ [0x0A]
     @ js ''</propfind>''"

definition list_try :: "env \<Rightarrow> config \<Rightarrow> state \<Rightarrow> (error + webdav_result) \<times> state" where
  "list_try env c st =
     (let listUrl = normalizePath (server_url c) (backup_path c)
      in case createHeaders env c (Some (js ''application/xml'')) of
           Inl e \<Rightarrow> (Inl e, st)
         | Inr h \<Rightarrow>
             (case sendWebDAVRequest env
                     \<lparr>req_url = listUrl, req_method = js ''PROPFIND'',
                      req_headers = h @ [(js ''Depth'', js ''1'')],
                      req_body = Some propfind_listing\<rparr> st of
                (Inl e, st1) \<Rightarrow> (Inl e, st1)
              | (Inr resp, st1) \<Rightarrow>
                  if ok resp then
                    (let files = parseWebDAVResponse env (bodyText resp)
                     in (Inr \<lparr>res_success = True, res_message = msg_list_ok,
                              res_files = Some (rev (sort (filter (\<lambda>f. endsWith f (js ''.json''))
                                                            files)))\<rparr>, st1))
                  else
                    (Inr \<lparr>res_success = False,
                          res_message = msg_list_failed @ digits (status resp) @ js '' ''
                                        @ statusText resp,
                          res_files = Some []\<rparr>, st1)))"

definition getBackupList :: "env \<Rightarrow> state \<Rightarrow> (error + webdav_result) \<times> state" where
  "getBackupList env st =
     (case getConfig env st of
        (Inl e, st0) \<Rightarrow> (Inl e, st0)
      | (Inr c, st0) \<Rightarrow>
          if \<not> enabled c then
            (Inr \<lparr>res_success = False, res_message = msg_not_enabled, res_files = Some []\<rparr>,
             st0)
          else
            (case list_try env c st0 of
               (Inr r, st1) \<Rightarrow> (Inr r, st1)
             | (Inl e, st1) \<Rightarrow>
                 (Inr \<lparr>res_success = False, res_message = msg_list_error @ err_message e,
                       res_files = Some []\<rparr>, st1)))"

section \<open>BackupEngine: syncOnDataChange\<close>

text \<open>
  The outer try covers getConfig and the inner try; the inner try covers uploadBackup.
  Both catch blocks write a failure entry with addSyncLog.
\<close>

definition syncOnDataChange :: "env \<Rightarrow> jsstring \<Rightarrow> state \<Rightarrow> (error + unit) \<times> state" where
  "syncOnDataChange env trig st =
     (case getConfig env st of
        (Inl e, st1) \<Rightarrow>
          (let errorMessage = (if err_message e = [] then msg_unknown_error else err_message e);
               st2 = addSyncLog env trig False (msg_sync_check_failed @ errorMessage) st1
           in (Inr (), st2))
      | (Inr c, st1) \<Rightarrow>
          if \<not> enabled c \<or> \<not> auto_sync_on_change c then (Inr (), st1)
          else
            (case uploadBackup env trig st1 of
               (Inr r, st2) \<Rightarrow> (Inr (), st2)
             | (Inl e, st2) \<Rightarrow>
                 (let errorMessage = (if err_message e = [] then msg_unknown_error
                                      else err_message e);
                      st3 = addSyncLog env trig False (msg_sync_exception @ errorMessage) st2
                  in (Inr (), st3))))"

section \<open>Observations used in the statements\<close>

definition logs_of :: "state \<Rightarrow> log_entry list" where
  "logs_of st = (case webdav_sync_logs st of Some l \<Rightarrow> l | None \<Rightarrow> [])"

text \<open>The failures the retry loop answers with another attempt, while attempts remain.\<close>

definition retriable :: "error + response \<Rightarrow> bool" where
  "retriable r =
     (case r of Inl e \<Rightarrow> includes_js (err_message e) marker_bg_unavailable | Inr resp \<Rightarrow> False)"

text \<open>
  The walk of the directory provisioner in the words of its description: the path is
  decomposed into its non-empty segments, the accumulated prefixes are taken from the
  root, and each prefix in turn is probed and, when absent, created; the walk ends in
  failure at the first prefix whose creation fails.
\<close>

definition path_segments :: "jsstring \<Rightarrow> jsstring list" where
  "path_segments dirPath = filter (\<lambda>part. part \<noteq> []) (split dirPath 0x2F)"

definition accumulated_prefixes :: "jsstring list \<Rightarrow> jsstring list" where
  "accumulated_prefixes parts =
     map (\<lambda>k. concat (map (\<lambda>part. js ''/'' @ part) (take k parts))) [1..<Suc (length parts)]"

fun walk_prefixes :: "env \<Rightarrow> config \<Rightarrow> jsstring list \<Rightarrow> state \<Rightarrow> bool \<times> state" where
  "walk_prefixes env c [] st = (True, st)"
| "walk_prefixes env c (p # ps) st =
     (case checkDirectoryExists env c p st of
        (True, st1) \<Rightarrow> walk_prefixes env c ps st1
      | (False, st1) \<Rightarrow>
          (case createDirectory env c p st1 of
             (True, st2) \<Rightarrow> walk_prefixes env c ps st2
           | (False, st2) \<Rightarrow> (False, st2)))"

definition mkcol_request :: "(jsstring \<times> jsstring) list \<Rightarrow> config \<Rightarrow> jsstring \<Rightarrow> request" where
  "mkcol_request h c dirPath =
     \<lparr>req_url = normalizePath (server_url c) dirPath, req_method = js ''MKCOL'',
      req_headers = h, req_body = None\<rparr>"

text \<open>A step that only talked to the network: cache, store and clock are as before.\<close>

definition network_only :: "state \<Rightarrow> state \<Rightarrow> bool" where
  "network_only st st' \<longleftrightarrow>
     cache st' = cache st \<and> webdav_config st' = webdav_config st
     \<and> webdav_sync_logs st' = webdav_sync_logs st \<and> ticks st' = ticks st
     \<and> storage_ops st' = storage_ops st"

definition put_request :: "env \<Rightarrow> (jsstring \<times> jsstring) list \<Rightarrow> config \<Rightarrow> int \<Rightarrow> backup_data \<Rightarrow> request" where
  "put_request env h c backupTimestamp backupData =
     \<lparr>req_url = normalizePath (server_url c) (backup_path c)
                 @ backup_filename (new_Date (tza env) backupTimestamp),
      req_method = js ''PUT'', req_headers = h, req_body = Some (stringify env backupData)\<rparr>"

text \<open>
  The calendar reading of a date, most significant field first; pairs are ordered
  lexicographically. A reading is well formed when its fields are in the ranges of the
  Gregorian calendar and of the clock, and its year is written with four digits.
\<close>

definition date_key :: "jsdate \<Rightarrow> int \<times> int \<times> int \<times> int \<times> int \<times> int" where
  "date_key d =
     (getFullYear d, getMonth d, getDate d, getHours d, getMinutes d, getSeconds d)"

definition four_digit_reading :: "jsdate \<Rightarrow> bool" where
  "four_digit_reading d \<longleftrightarrow>
     1000 \<le> getFullYear d \<and> getFullYear d \<le> 9999
     \<and> 0 \<le> getMonth d \<and> getMonth d \<le> 11
     \<and> 1 \<le> getDate d \<and> getDate d \<le> 31
     \<and> 0 \<le> getHours d \<and> getHours d \<le> 23
     \<and> 0 \<le> getMinutes d \<and> getMinutes d \<le> 59
     \<and> 0 \<le> getSeconds d \<and> getSeconds d \<le> 59"

definition listing_request :: "(jsstring \<times> jsstring) list \<Rightarrow> config \<Rightarrow> request" where
  "listing_request h c =
     \<lparr>req_url = normalizePath (server_url c) (backup_path c), req_method = js ''PROPFIND'',
      req_headers = h @ [(js ''Depth'', js ''1'')], req_body = Some propfind_listing\<rparr>"

section \<open>Example collaborators\<close>

text \<open>
  A listing of the backup directory with two entries, the directory itself and one
  snapshot, each with its display name and resource type, as a server answers the
  PROPFIND of getBackupList. The prefix of the element names is left open: empty for a
  document that declares DAV: as default namespace, \<open>d:\<close> or \<open>D:\<close> otherwise.
\<close>

definition listing_entry :: "jsstring \<Rightarrow> jsstring \<Rightarrow> jsstring \<Rightarrow> xml list \<Rightarrow> xml" where
  "listing_entry pre href name resourcetype =
     Element (pre @ js ''response'')
       [Element (pre @ js ''href'') [TextNode href],
        Element (pre @ js ''propstat'')
          [Element (pre @ js ''prop'')
             [Element (pre @ js ''displayname'') [TextNode name],
              Element (pre @ js ''resourcetype'') resourcetype],
           Element (pre @ js ''status'') [TextNode (js ''HTTP/1.1 200 OK'')]]]"

definition example_listing :: "jsstring \<Rightarrow> xml" where
  "example_listing pre =
     Element (pre @ js ''multistatus'')
       [listing_entry pre (js ''/dav/bk/'') (js ''bk'') [Element (pre @ js ''collection'') []],
        listing_entry pre (js ''/dav/bk/backup-2024-10-27_01-00-00.json'')
          (js ''backup-2024-10-27_01-00-00.json'') []]"

text \<open>
  A host whose store never rejects, whose clock advances by one second per reading from
  2024-10-27T00:59:59Z, and whose exports succeed; the proxy channel and the time zone are
  left open. \<open>btoa\<close>, \<open>JSON.stringify\<close> and \<open>decodeURIComponent\<close> are stand-ins, and
  the XML parser returns the unprefixed two-entry listing whatever the text.
\<close>

definition example_env ::
  "(request list \<Rightarrow> request \<Rightarrow> channel_outcome) \<Rightarrow> (int \<Rightarrow> int) \<Rightarrow> env" where
  "example_env ch tz =
     \<lparr>proxied = True, channel = ch, fetch = (\<lambda>history req. Inl (Error (js ''Failed to fetch''))),
      clock = (\<lambda>n. 1729990799000 + 1000 * int n), tza = tz,
      storage_fault = (\<lambda>n. None), btoa = (\<lambda>s. Inr s),
      exports = Inr (js ''{}'', js ''{}''), stringify = (\<lambda>d. js ''{}''),
      domParser = (\<lambda>t. example_listing []),
      decodeURIComponent = (\<lambda>s. Inr s)\<rparr>"

definition utc :: "int \<Rightarrow> int" where
  "utc t = 0"

text \<open>Central European time around the end of summer time on 2024-10-27, 01:00 UTC.\<close>

definition berlin :: "int \<Rightarrow> int" where
  "berlin t = (if t < 1729990800000 then 7200000 else 3600000)"

definition example_config :: config where
  "example_config =
     \<lparr>enabled = True, server_url = js ''https://dav.example.com'', username = js ''u'',
      password = js ''p'', backup_path = js ''/bk'', auto_sync_on_change = True,
      last_backup_time = 0\<rparr>"

definition example_state :: "config \<Rightarrow> log_entry list \<Rightarrow> state" where
  "example_state c logs =
     \<lparr>cache = None, webdav_config = Some c, webdav_sync_logs = Some logs, trace = [],
      sleeps = [], ticks = 0, storage_ops = 0\<rparr>"

definition numbered_logs :: "nat \<Rightarrow> log_entry list" where
  "numbered_logs n =
     map (\<lambda>i. \<lparr>log_timestamp = int i, log_trigger = trigger_manual, log_success = True,
                log_message = digits i\<rparr>) [0..<n]"


definition example_request :: request where
  "example_request =
     \<lparr>req_url = js ''https://dav.example.com/bk/'', req_method = js ''PROPFIND'',
      req_headers = [], req_body = None\<rparr>"

definition response_of :: "nat \<Rightarrow> jsstring \<Rightarrow> response" where
  "response_of code reason =
     \<lparr>ok = (200 \<le> code \<and> code \<le> 299), status = code, statusText = reason, bodyText = []\<rparr>"

text \<open>
  A server on which no directory exists yet: every probe is answered 404, and every
  other request with the given status.
\<close>

definition absent_dir_server ::
  "nat \<Rightarrow> jsstring \<Rightarrow> request list \<Rightarrow> request \<Rightarrow> channel_outcome" where
  "absent_dir_server code reason history req =
     (if req_method req = js ''PROPFIND'' then Delivered (response_of 404 (js ''Not Found''))
      else Delivered (response_of code reason))"

text \<open>
  A server on which the backup directory exists: every probe is answered 207, and every
  other request with the given status.
\<close>

definition present_dir_server ::
  "nat \<Rightarrow> jsstring \<Rightarrow> request list \<Rightarrow> request \<Rightarrow> channel_outcome" where
  "present_dir_server code reason history req =
     (if req_method req = js ''PROPFIND'' then Delivered (response_of 207 (js ''Multi-Status''))
      else Delivered (response_of code reason))"

text \<open>A proxy channel on which no request is ever answered within the 30 seconds.\<close>

definition timing_out :: "request list \<Rightarrow> request \<Rightarrow> channel_outcome" where
  "timing_out history req = TimedOut"



section \<open>Properties of normalizePath\<close>

lemma js_slash: "js ''/'' = [47]"
  by (simp add: js_def)

lemma endsWith_slash: "endsWith s [47] \<longleftrightarrow> s \<noteq> [] \<and> last s = 47"
proof (cases s rule: rev_cases)
  case Nil
  then show ?thesis by (simp add: endsWith_def)
next
  case (snoc ys y)
  then show ?thesis by (auto simp: endsWith_def)
qed

lemma startsWith_slash: "startsWith s [47] \<longleftrightarrow> s \<noteq> [] \<and> hd s = 47"
  by (cases s) (auto simp: startsWith_def)

lemma normalizePath_core:
  assumes h: "\<not> endsWith host (js ''/'')"
      and p: "p \<noteq> []" "\<not> startsWith p (js ''/'')" "\<not> endsWith p (js ''/'')"
      and u: "url = host \<or> url = host @ js ''/''"
      and q: "path = p \<or> path = js ''/'' @ p \<or> path = p @ js ''/'' \<or> path = js ''/'' @ p @ js ''/''"
  shows "normalizePath url path = host @ js ''/'' @ p @ js ''/''"
proof -
  have base: "(if endsWith url [47] then butlast url else url) = host"
    using h u by (auto simp: js_slash endsWith_slash)
  have fin: "(if endsWith (if startsWith path [47] then path else [47] @ path) [47]
              then (if startsWith path [47] then path else [47] @ path)
              else (if startsWith path [47] then path else [47] @ path) @ [47])
             = [47] @ p @ [47]"
    using p q by (auto simp: js_slash endsWith_slash startsWith_slash)
  show ?thesis
    unfolding normalizePath_def Let_def js_slash by (simp only: base fin)
qed

text \<open>
  C6. For a server URL given with or without its trailing slash (\<open>host\<close> or \<open>host/\<close>)
  and a path given with or without a leading and a trailing slash (\<open>p\<close>, \<open>/p\<close>, \<open>p/\<close>,
  \<open>/p/\<close>), normalizePath returns \<open>host/p/\<close>: exactly one slash between host and path
  and exactly one trailing slash. For the empty path, given as the empty string or as a
  single slash, the result is \<open>host/\<close>.
\<close>

theorem normalizePath_one_slash:
  assumes "\<not> endsWith host (js ''/'')"
      and "\<not> startsWith p (js ''/'')" "\<not> endsWith p (js ''/'')"
      and "url = host \<or> url = host @ js ''/''"
  shows "(p \<noteq> [] \<and> (path = p \<or> path = js ''/'' @ p \<or> path = p @ js ''/''
                     \<or> path = js ''/'' @ p @ js ''/'')
          \<longrightarrow> normalizePath url path = host @ js ''/'' @ p @ js ''/'')
       \<and> (path = [] \<or> path = js ''/'' \<longrightarrow> normalizePath url path = host @ js ''/'')"
proof (intro conjI impI)
  assume "p \<noteq> [] \<and> (path = p \<or> path = js ''/'' @ p \<or> path = p @ js ''/''
                     \<or> path = js ''/'' @ p @ js ''/'')"
  then show "normalizePath url path = host @ js ''/'' @ p @ js ''/''"
    using assms normalizePath_core [of host p url path] by blast
next
  assume e: "path = [] \<or> path = js ''/''"
  have base: "(if endsWith url [47] then butlast url else url) = host"
    using assms(1,4) by (auto simp: js_slash endsWith_slash)
  show "normalizePath url path = host @ js ''/''"
    using e base by (auto simp: normalizePath_def js_slash Let_def endsWith_slash startsWith_slash)
qed

theorem normalizePath_one_slash_witness:
  "normalizePath (js ''https://dav.example.com/'') (js ''bk'') = js ''https://dav.example.com/bk/''
   \<and> normalizePath (js ''https://dav.example.com'') (js ''/bk/'') = js ''https://dav.example.com/bk/''
   \<and> normalizePath (js ''https://dav.example.com/'') (js ''/'') = js ''https://dav.example.com/''"
proof -
  have h: "\<not> endsWith (js ''https://dav.example.com'') (js ''/'')"
    by (simp add: endsWith_def js_def)
  have p: "\<not> startsWith (js ''bk'') (js ''/'')" "\<not> endsWith (js ''bk'') (js ''/'')"
    by (simp_all add: startsWith_def endsWith_def js_def)
  have a: "normalizePath (js ''https://dav.example.com'' @ js ''/'') (js ''bk'')
           = js ''https://dav.example.com'' @ js ''/'' @ js ''bk'' @ js ''/''"
    using normalizePath_one_slash [OF h p, of "js ''https://dav.example.com'' @ js ''/''" "js ''bk''"]
    by (simp add: js_def)
  have b: "normalizePath (js ''https://dav.example.com'') (js ''/'' @ js ''bk'' @ js ''/'')
           = js ''https://dav.example.com'' @ js ''/'' @ js ''bk'' @ js ''/''"
    using normalizePath_one_slash [OF h p, of "js ''https://dav.example.com''" "js ''/'' @ js ''bk'' @ js ''/''"]
    by (simp add: js_def)
  have c: "normalizePath (js ''https://dav.example.com'' @ js ''/'') (js ''/'')
           = js ''https://dav.example.com'' @ js ''/''"
    using normalizePath_one_slash [OF h p, of "js ''https://dav.example.com'' @ js ''/''" "js ''/''"]
    by (simp add: js_def)
  show ?thesis
    using a b c by (simp add: js_def)
qed

section \<open>The audit log is bounded and first-in first-out\<close>

lemma storage_access_simps:
  "fst (storage_access env st) = storage_fault env (storage_ops st)"
  "snd (storage_access env st) = st\<lparr>storage_ops := Suc (storage_ops st)\<rparr>"
  by (simp_all add: storage_access_def)

lemma addSyncLog_cases:
  "addSyncLog env trig succ msg st =
     (if storage_fault env (storage_ops st) = None \<and> storage_fault env (Suc (storage_ops st)) = None
      then st\<lparr>storage_ops := Suc (Suc (storage_ops st)), ticks := Suc (ticks st),
              webdav_sync_logs := Some (drop (Suc (length (logs_of st)) - 50)
                 (logs_of st @ [\<lparr>log_timestamp = clock env (ticks st), log_trigger = trig,
                                 log_success = succ, log_message = msg\<rparr>]))\<rparr>
      else if storage_fault env (storage_ops st) = None
      then st\<lparr>storage_ops := Suc (Suc (storage_ops st)), ticks := Suc (ticks st)\<rparr>
      else st\<lparr>storage_ops := Suc (storage_ops st)\<rparr>)"
  by (auto simp: addSyncLog_def storage_access_def Date_now_def logs_of_def Let_def
           split: option.splits)

text \<open>
  C5. The audit log never grows beyond 50 entries: addSyncLog keeps a log of at most 50
  entries at most 50 entries long, and whenever the store accepts the read and the write
  the new log is the old one with the new entry appended and the oldest entries dropped
  down to 50. On a log of exactly 50 entries that leaves 50 entries, the former second
  entry first and the new entry last.
\<close>

theorem addSyncLog_bounded_fifo:
  "(length (logs_of st) \<le> 50 \<longrightarrow> length (logs_of (addSyncLog env trig succ msg st)) \<le> 50)
   \<and> (storage_fault env (storage_ops st) = None
        \<and> storage_fault env (Suc (storage_ops st)) = None \<longrightarrow>
        logs_of (addSyncLog env trig succ msg st)
          = drop (Suc (length (logs_of st)) - 50)
              (logs_of st @ [\<lparr>log_timestamp = clock env (ticks st), log_trigger = trig,
                               log_success = succ, log_message = msg\<rparr>])
        \<and> length (logs_of (addSyncLog env trig succ msg st)) \<le> 50
        \<and> (length (logs_of st) = 50 \<longrightarrow>
             length (logs_of (addSyncLog env trig succ msg st)) = 50
             \<and> logs_of (addSyncLog env trig succ msg st) ! 0 = logs_of st ! 1
             \<and> last (logs_of (addSyncLog env trig succ msg st))
                 = \<lparr>log_timestamp = clock env (ticks st), log_trigger = trig,
                    log_success = succ, log_message = msg\<rparr>))"
proof -
  let ?new = "\<lparr>log_timestamp = clock env (ticks st), log_trigger = trig,
               log_success = succ, log_message = msg\<rparr>"
  let ?st' = "addSyncLog env trig succ msg st"
  have inv: "length (logs_of st) \<le> 50 \<Longrightarrow> length (logs_of ?st') \<le> 50"
    by (auto simp: addSyncLog_cases logs_of_def)
  have ok: "logs_of ?st' = drop (Suc (length (logs_of st)) - 50) (logs_of st @ [?new])"
    if "storage_fault env (storage_ops st) = None" "storage_fault env (Suc (storage_ops st)) = None"
    using that by (simp add: addSyncLog_cases logs_of_def)
  have len: "length (drop (Suc (length (logs_of st)) - 50) (logs_of st @ [?new])) \<le> 50"
    by simp
  have full: "length (drop (Suc (length (logs_of st)) - 50) (logs_of st @ [?new])) = 50
              \<and> drop (Suc (length (logs_of st)) - 50) (logs_of st @ [?new]) ! 0 = logs_of st ! 1
              \<and> last (drop (Suc (length (logs_of st)) - 50) (logs_of st @ [?new])) = ?new"
    if "length (logs_of st) = 50"
    using that by (simp add: nth_append)
  show ?thesis
    using inv ok len full by simp
qed


theorem addSyncLog_bounded_fifo_witness:
  "length (logs_of (example_state example_config (numbered_logs 50))) = 50
   \<and> length (logs_of (addSyncLog (example_env (\<lambda>h r. TimedOut) utc) trigger_manual True (js ''ok'')
                 (example_state example_config (numbered_logs 50)))) = 50
   \<and> logs_of (addSyncLog (example_env (\<lambda>h r. TimedOut) utc) trigger_manual True (js ''ok'')
                 (example_state example_config (numbered_logs 50))) ! 0
       = \<lparr>log_timestamp = 1, log_trigger = trigger_manual, log_success = True,
          log_message = js ''1''\<rparr>"
proof -
  have len: "length (logs_of (example_state example_config (numbered_logs 50))) = 50"
    by (simp add: logs_of_def example_state_def numbered_logs_def)
  have snd: "logs_of (example_state example_config (numbered_logs 50)) ! 1
             = \<lparr>log_timestamp = 1, log_trigger = trigger_manual, log_success = True,
                log_message = js ''1''\<rparr>"
    by (simp add: logs_of_def example_state_def numbered_logs_def digits.simps js_def)
  have flt: "storage_fault (example_env (\<lambda>h r. TimedOut) utc) n = None" for n
    by (simp add: example_env_def)
  note t = addSyncLog_bounded_fifo [of "example_state example_config (numbered_logs 50)"
                                     "example_env (\<lambda>h r. TimedOut) utc" trigger_manual True "js ''ok''"]
  have a: "length (logs_of (addSyncLog (example_env (\<lambda>h r. TimedOut) utc) trigger_manual True
             (js ''ok'') (example_state example_config (numbered_logs 50)))) = 50"
    using t len flt by blast
  have b: "logs_of (addSyncLog (example_env (\<lambda>h r. TimedOut) utc) trigger_manual True
             (js ''ok'') (example_state example_config (numbered_logs 50))) ! 0
           = logs_of (example_state example_config (numbered_logs 50)) ! 1"
    using t len flt by blast
  show ?thesis
    using len a b snd by (simp only: simp_thms)
qed

section \<open>The retry policy of sendWebDAVRequest\<close>

lemma sendLoop_last:
  "sendLoop env req 3 le st = attempt_once env req st"
  by (subst sendLoop.simps) (simp add: maxRetries_def split: prod.splits sum.splits)

lemma sendLoop_second:
  "sendLoop env req 2 le st =
     (if retriable (attempt_result env (trace st) req)
      then sendLoop env req 3 (Some (projl (attempt_result env (trace st) req)))
             (sleep 2000 (snd (attempt_once env req st)))
      else attempt_once env req st)"
  by (subst sendLoop.simps)
     (auto simp: maxRetries_def attempt_once_def retriable_def split: prod.splits sum.splits)

lemma sendLoop_first:
  "sendLoop env req 1 le st =
     (if retriable (attempt_result env (trace st) req)
      then sendLoop env req 2 (Some (projl (attempt_result env (trace st) req)))
             (sleep 1000 (snd (attempt_once env req st)))
      else attempt_once env req st)"
  by (subst sendLoop.simps)
     (auto simp: maxRetries_def attempt_once_def retriable_def numeral_2_eq_2
           split: prod.splits sum.splits)

lemma sendWebDAVRequest_unfolded:
  "sendWebDAVRequest env req st =
     (if \<not> retriable (attempt_result env (trace st) req)
      then (attempt_result env (trace st) req, st\<lparr>trace := trace st @ [req]\<rparr>)
      else if \<not> retriable (attempt_result env (trace st @ [req]) req)
      then (attempt_result env (trace st @ [req]) req,
            st\<lparr>trace := trace st @ [req, req], sleeps := sleeps st @ [1000]\<rparr>)
      else (attempt_result env (trace st @ [req, req]) req,
            st\<lparr>trace := trace st @ [req, req, req], sleeps := sleeps st @ [1000, 2000]\<rparr>))"
  unfolding sendWebDAVRequest_def
  by (subst sendLoop_first) (simp add: sendLoop_second sendLoop_last attempt_once_def sleep_def)


lemma marker_in_messages:
  "\<not> includes_js msg_runtime_invalid marker_bg_unavailable"
  "\<not> includes_js msg_timeout marker_bg_unavailable"
  "\<not> includes_js msg_no_response marker_bg_unavailable"
  "includes_js msg_bg_unavailable marker_bg_unavailable"
  by (simp_all add: msg_runtime_invalid_def msg_timeout_def msg_no_response_def
                    msg_bg_unavailable_def marker_bg_unavailable_def startsWith_def)




section \<open>The directory provisioner\<close>

lemma accumulated_prefixes_Cons:
  "accumulated_prefixes (part # parts)
   = (js ''/'' @ part) # map (\<lambda>p. (js ''/'' @ part) @ p) (accumulated_prefixes parts)"
proof -
  have "[1..<Suc (Suc (length parts))] = 1 # map Suc [1..<Suc (length parts)]"
    by (simp add: upt_conv_Cons map_Suc_upt del: upt_Suc)
  then show ?thesis
    by (simp add: accumulated_prefixes_def o_def del: upt_Suc)
qed

lemma ensure_parts_walk:
  "ensure_parts env c parts cur st
   = walk_prefixes env c (map (\<lambda>p. cur @ p) (accumulated_prefixes parts)) st"
proof (induction parts arbitrary: cur st)
  case Nil
  then show ?case by (simp add: accumulated_prefixes_def)
next
  case (Cons part parts)
  show ?case
    by (simp add: accumulated_prefixes_Cons Cons.IH o_def Let_def
             split: prod.splits bool.splits)
qed

lemma walk_prefixes_append:
  "walk_prefixes env c (ps @ qs) st
   = (case walk_prefixes env c ps st of
        (True, st1) \<Rightarrow> walk_prefixes env c qs st1
      | (False, st1) \<Rightarrow> (False, st1))"
  by (induction ps arbitrary: st) (auto split: prod.splits bool.splits)

lemma createDirectory_result:
  assumes "createHeaders env c None = Inr h"
  shows "createDirectory env c dirPath st
         = (case sendWebDAVRequest env (mkcol_request h c dirPath) st of
              (Inr resp, st1) \<Rightarrow> (ok resp \<or> status resp = 405, st1)
            | (Inl e, st1) \<Rightarrow> (False, st1))"
  using assms by (simp add: createDirectory_def mkcol_request_def Let_def)


lemma sendWebDAVRequest_delivered:
  assumes "proxied env" "channel env (trace st) req = Delivered r"
  shows "sendWebDAVRequest env req st = (Inr r, st\<lparr>trace := trace st @ [req]\<rparr>)"
proof -
  have "attempt_result env (trace st) req = Inr r"
    using assms by (simp add: attempt_result_def)
  then show ?thesis
    by (simp add: sendWebDAVRequest_unfolded retriable_def)
qed

lemma sendWebDAVRequest_not_retried:
  assumes "attempt_result env (trace st) req = Inl e"
      and "\<not> includes_js (err_message e) marker_bg_unavailable"
  shows "sendWebDAVRequest env req st = (Inl e, st\<lparr>trace := trace st @ [req]\<rparr>)"
  using assms by (simp add: sendWebDAVRequest_unfolded retriable_def)

lemma example_env_simps:
  "proxied (example_env ch tz)"
  "channel (example_env ch tz) = ch"
  "tza (example_env ch tz) = tz"
  "storage_fault (example_env ch tz) n = None"
  "clock (example_env ch tz) n = 1729990799000 + 1000 * int n"
  "exports (example_env ch tz) = Inr (js ''{}'', js ''{}'')"
  "createHeaders (example_env ch tz) c None
   = Inr [(js ''Authorization'', js ''Basic '' @ username c @ js '':'' @ password c),
          (js ''User-Agent'', js ''OneAPIHub-WebDAV-Client/1.0''), (js ''Accept'', js ''*/*'')]"
  "createHeaders (example_env ch tz) c (Some (js ''application/xml''))
   = Inr [(js ''Authorization'', js ''Basic '' @ username c @ js '':'' @ password c),
          (js ''User-Agent'', js ''OneAPIHub-WebDAV-Client/1.0''), (js ''Accept'', js ''*/*''),
          (js ''Content-Type'', js ''application/xml'')]"
  "createHeaders (example_env ch tz) c (Some (js ''application/json''))
   = Inr [(js ''Authorization'', js ''Basic '' @ username c @ js '':'' @ password c),
          (js ''User-Agent'', js ''OneAPIHub-WebDAV-Client/1.0''), (js ''Accept'', js ''*/*''),
          (js ''Content-Type'', js ''application/json'')]"
  by (simp_all add: example_env_def createHeaders_def js_def)

lemma path_segments_bk: "path_segments (js ''/bk'') = [js ''bk'']"
  by (simp add: path_segments_def js_def)

lemma accumulated_prefixes_bk: "accumulated_prefixes [js ''bk''] = [js ''/bk'']"
  by (simp add: accumulated_prefixes_def js_def)

lemma absent_dir_probe:
  "checkDirectoryExists (example_env (absent_dir_server code reason) tz) c dirPath st
   = (False, st\<lparr>trace := trace st @
        [\<lparr>req_url = normalizePath (server_url c) dirPath, req_method = js ''PROPFIND'',
          req_headers =
            [(js ''Authorization'', js ''Basic '' @ username c @ js '':'' @ password c),
             (js ''User-Agent'', js ''OneAPIHub-WebDAV-Client/1.0''), (js ''Accept'', js ''*/*''),
             (js ''Content-Type'', js ''application/xml''), (js ''Depth'', js ''0'')],
          req_body = Some propfind_resourcetype\<rparr>]\<rparr>)"
  by (simp add: checkDirectoryExists_def example_env_simps Let_def
                sendWebDAVRequest_delivered absent_dir_server_def response_of_def)

lemma absent_dir_mkcol:
  "sendWebDAVRequest (example_env (absent_dir_server code reason) tz) (mkcol_request h c dirPath) st
   = (Inr (response_of code reason), st\<lparr>trace := trace st @ [mkcol_request h c dirPath]\<rparr>)"
proof -
  have "js ''MKCOL'' \<noteq> js ''PROPFIND''"
    by (simp add: js_def)
  then show ?thesis
    by (simp add: example_env_simps sendWebDAVRequest_delivered absent_dir_server_def
                  mkcol_request_def)
qed

lemma ensureDirectoryExists_walk:
  "ensureDirectoryExists env c dirPath st =
     (case checkDirectoryExists env c dirPath st of
        (True, st1) \<Rightarrow> (True, st1)
      | (False, st1) \<Rightarrow>
          walk_prefixes env c (accumulated_prefixes (path_segments dirPath)) st1)"
  by (simp add: ensureDirectoryExists_def ensure_parts_walk path_segments_def Let_def
           split: prod.splits bool.splits)

text \<open>
  C7, as the code has it. ensureDirectoryExists first probes the whole path and returns
  success at once when the probe succeeds; otherwise its result is that of the walk over
  the accumulated prefixes of the path's segments. The walk takes the prefixes in order:
  a prefix is probed and, when absent, created, and a failed creation ends the walk in
  failure with nothing done for the prefixes after it. A creation counts as successful
  when the response is ok or has status 405, and as failed on any other response and on
  any exception.
\<close>

theorem ensureDirectoryExists_provisioning:
  "ensureDirectoryExists env c dirPath st =
     (case checkDirectoryExists env c dirPath st of
        (True, st1) \<Rightarrow> (True, st1)
      | (False, st1) \<Rightarrow>
          walk_prefixes env c (accumulated_prefixes (path_segments dirPath)) st1)
   \<and> walk_prefixes env c (ps @ p # qs) st =
       (case walk_prefixes env c ps st of
          (False, st1) \<Rightarrow> (False, st1)
        | (True, st1) \<Rightarrow>
            (case checkDirectoryExists env c p st1 of
               (True, st2) \<Rightarrow> walk_prefixes env c qs st2
             | (False, st2) \<Rightarrow>
                 (case createDirectory env c p st2 of
                    (True, st3) \<Rightarrow> walk_prefixes env c qs st3
                  | (False, st3) \<Rightarrow> (False, st3))))
   \<and> (\<forall>h resp st1. createHeaders env c None = Inr h
          \<and> sendWebDAVRequest env (mkcol_request h c p) st = (Inr resp, st1)
          \<longrightarrow> createDirectory env c p st = (ok resp \<or> status resp = 405, st1))
   \<and> (\<forall>h e st1. createHeaders env c None = Inr h
          \<and> sendWebDAVRequest env (mkcol_request h c p) st = (Inl e, st1)
          \<longrightarrow> createDirectory env c p st = (False, st1))
   \<and> (\<forall>e. createHeaders env c None = Inl e \<longrightarrow> createDirectory env c p st = (False, st))"
proof (intro conjI allI impI)
  show "ensureDirectoryExists env c dirPath st =
     (case checkDirectoryExists env c dirPath st of
        (True, st1) \<Rightarrow> (True, st1)
      | (False, st1) \<Rightarrow>
          walk_prefixes env c (accumulated_prefixes (path_segments dirPath)) st1)"
    by (rule ensureDirectoryExists_walk)
next
  show "walk_prefixes env c (ps @ p # qs) st =
       (case walk_prefixes env c ps st of
          (False, st1) \<Rightarrow> (False, st1)
        | (True, st1) \<Rightarrow>
            (case checkDirectoryExists env c p st1 of
               (True, st2) \<Rightarrow> walk_prefixes env c qs st2
             | (False, st2) \<Rightarrow>
                 (case createDirectory env c p st2 of
                    (True, st3) \<Rightarrow> walk_prefixes env c qs st3
                  | (False, st3) \<Rightarrow> (False, st3))))"
    by (simp add: walk_prefixes_append split: prod.splits bool.splits)
next
  fix h resp st1
  assume "createHeaders env c None = Inr h
          \<and> sendWebDAVRequest env (mkcol_request h c p) st = (Inr resp, st1)"
  then show "createDirectory env c p st = (ok resp \<or> status resp = 405, st1)"
    by (simp add: createDirectory_result)
next
  fix h e st1
  assume "createHeaders env c None = Inr h
          \<and> sendWebDAVRequest env (mkcol_request h c p) st = (Inl e, st1)"
  then show "createDirectory env c p st = (False, st1)"
    by (simp add: createDirectory_result)
next
  fix e
  assume "createHeaders env c None = Inl e"
  then show "createDirectory env c p st = (False, st)"
    by (simp add: createDirectory_def Let_def)
qed

theorem ensureDirectoryExists_provisioning_witness:
  "createDirectory (example_env (absent_dir_server 405 (js ''Method Not Allowed'')) utc)
     example_config (js ''/bk'') (example_state example_config [])
   = (True, (example_state example_config [])
        \<lparr>trace := [mkcol_request
            [(js ''Authorization'', js ''Basic u:p''),
             (js ''User-Agent'', js ''OneAPIHub-WebDAV-Client/1.0''), (js ''Accept'', js ''*/*'')]
            example_config (js ''/bk'')]\<rparr>)
   \<and> fst (ensureDirectoryExists (example_env (absent_dir_server 405 (js ''Method Not Allowed'')) utc)
           example_config (js ''/bk'') (example_state example_config []))"
proof -
  let ?E = "example_env (absent_dir_server 405 (js ''Method Not Allowed'')) utc"
  let ?S = "example_state example_config []"
  let ?h = "[(js ''Authorization'', js ''Basic u:p''),
             (js ''User-Agent'', js ''OneAPIHub-WebDAV-Client/1.0''), (js ''Accept'', js ''*/*'')]"
  note t = ensureDirectoryExists_provisioning [of ?E example_config "js ''/bk''" ?S "[]" "js ''/bk''" "[]"]
  have hd: "createHeaders ?E example_config None = Inr ?h"
    by (simp add: example_env_simps example_config_def js_def)
  have mk: "sendWebDAVRequest ?E (mkcol_request ?h example_config (js ''/bk'')) ?S
            = (Inr (response_of 405 (js ''Method Not Allowed'')),
               ?S\<lparr>trace := trace ?S @ [mkcol_request ?h example_config (js ''/bk'')]\<rparr>)"
    by (rule absent_dir_mkcol)
  have "createDirectory ?E example_config (js ''/bk'') ?S
        = (ok (response_of 405 (js ''Method Not Allowed''))
           \<or> status (response_of 405 (js ''Method Not Allowed'')) = 405,
           ?S\<lparr>trace := trace ?S @ [mkcol_request ?h example_config (js ''/bk'')]\<rparr>)"
    using t hd mk by blast
  then have a: "createDirectory ?E example_config (js ''/bk'') ?S
        = (True, ?S\<lparr>trace := [mkcol_request ?h example_config (js ''/bk'')]\<rparr>)"
    by (simp add: response_of_def example_state_def)
  have "ensureDirectoryExists ?E example_config (js ''/bk'') ?S
        = (case checkDirectoryExists ?E example_config (js ''/bk'') ?S of
             (True, st1) \<Rightarrow> (True, st1)
           | (False, st1) \<Rightarrow>
               walk_prefixes ?E example_config (accumulated_prefixes (path_segments (js ''/bk''))) st1)"
    using t by blast
  then have b: "fst (ensureDirectoryExists ?E example_config (js ''/bk'') ?S)"
    by (simp add: absent_dir_probe path_segments_bk accumulated_prefixes_bk
                  createDirectory_result [OF hd] absent_dir_mkcol response_of_def)
  show ?thesis
    using a b by (simp only: simp_thms)
qed

text \<open>
  C7 as stated counts a creation answered 409 Conflict as successful. On a server where
  the directory is absent and MKCOL is answered 409, createDirectory reports failure and
  so does ensureDirectoryExists.
\<close>

theorem ensureDirectoryExists_conflict_counterexample:
  "status (response_of 409 (js ''Conflict'')) = 409
   \<and> sendWebDAVRequest (example_env (absent_dir_server 409 (js ''Conflict'')) utc)
         (mkcol_request
            [(js ''Authorization'', js ''Basic u:p''),
             (js ''User-Agent'', js ''OneAPIHub-WebDAV-Client/1.0''), (js ''Accept'', js ''*/*'')]
            example_config (js ''/bk'')) (example_state example_config [])
       = (Inr (response_of 409 (js ''Conflict'')),
          (example_state example_config [])
            \<lparr>trace := [mkcol_request
               [(js ''Authorization'', js ''Basic u:p''),
                (js ''User-Agent'', js ''OneAPIHub-WebDAV-Client/1.0''), (js ''Accept'', js ''*/*'')]
               example_config (js ''/bk'')]\<rparr>)
   \<and> \<not> fst (createDirectory (example_env (absent_dir_server 409 (js ''Conflict'')) utc)
               example_config (js ''/bk'') (example_state example_config []))
   \<and> \<not> fst (ensureDirectoryExists (example_env (absent_dir_server 409 (js ''Conflict'')) utc)
               example_config (js ''/bk'') (example_state example_config []))"
proof -
  let ?E = "example_env (absent_dir_server 409 (js ''Conflict'')) utc"
  let ?S = "example_state example_config []"
  let ?h = "[(js ''Authorization'', js ''Basic u:p''),
             (js ''User-Agent'', js ''OneAPIHub-WebDAV-Client/1.0''), (js ''Accept'', js ''*/*'')]"
  have hd: "createHeaders ?E example_config None = Inr ?h"
    by (simp add: example_env_simps example_config_def js_def)
  have a: "status (response_of 409 (js ''Conflict'')) = 409"
    by (simp add: response_of_def)
  have b: "sendWebDAVRequest ?E (mkcol_request ?h example_config (js ''/bk'')) ?S
            = (Inr (response_of 409 (js ''Conflict'')),
               ?S\<lparr>trace := [mkcol_request ?h example_config (js ''/bk'')]\<rparr>)"
    by (simp add: absent_dir_mkcol example_state_def)
  have c: "\<not> fst (createDirectory ?E example_config (js ''/bk'') ?S)"
    by (simp add: createDirectory_result [OF hd] absent_dir_mkcol response_of_def)
  have d: "\<not> fst (ensureDirectoryExists ?E example_config (js ''/bk'') ?S)"
    by (simp add: ensureDirectoryExists_walk absent_dir_probe path_segments_bk
                  accumulated_prefixes_bk createDirectory_result [OF hd] absent_dir_mkcol
                  response_of_def)
  show ?thesis
    using a b c d by (simp only: simp_thms)
qed

section \<open>What each step leaves untouched\<close>

lemma network_only_refl: "network_only st st"
  by (simp add: network_only_def)

lemma network_only_trans:
  "network_only st st1 \<Longrightarrow> network_only st1 st2 \<Longrightarrow> network_only st st2"
  by (simp add: network_only_def)

lemma sendWebDAVRequest_network_only:
  "sendWebDAVRequest env req st = (r, st') \<Longrightarrow> network_only st st'"
  by (auto simp: sendWebDAVRequest_unfolded network_only_def split: if_splits)

lemma checkDirectoryExists_network_only:
  "checkDirectoryExists env c dirPath st = (b, st') \<Longrightarrow> network_only st st'"
  by (auto simp: checkDirectoryExists_def Let_def network_only_refl
           split: sum.splits prod.splits dest: sendWebDAVRequest_network_only)

lemma createDirectory_network_only:
  "createDirectory env c dirPath st = (b, st') \<Longrightarrow> network_only st st'"
  by (auto simp: createDirectory_def Let_def network_only_refl
           split: sum.splits prod.splits dest: sendWebDAVRequest_network_only)

lemma walk_prefixes_network_only:
  "walk_prefixes env c ps st = (b, st') \<Longrightarrow> network_only st st'"
proof (induction ps arbitrary: st)
  case Nil
  then show ?case by (simp add: network_only_refl)
next
  case (Cons p ps)
  obtain e st1 where ch: "checkDirectoryExists env c p st = (e, st1)"
    by (cases "checkDirectoryExists env c p st")
  note n1 = checkDirectoryExists_network_only [OF ch]
  show ?case
  proof (cases e)
    case True
    then have "walk_prefixes env c ps st1 = (b, st')"
      using Cons.prems ch by simp
    then show ?thesis
      using Cons.IH n1 network_only_trans by blast
  next
    case False
    obtain k st2 where cr: "createDirectory env c p st1 = (k, st2)"
      by (cases "createDirectory env c p st1")
    note n2 = network_only_trans [OF n1 createDirectory_network_only [OF cr]]
    show ?thesis
    proof (cases k)
      case True
      then have "walk_prefixes env c ps st2 = (b, st')"
        using Cons.prems ch cr False by simp
      then show ?thesis
        using Cons.IH n2 network_only_trans by blast
    next
      case k: False
      then have "st' = st2"
        using Cons.prems ch cr False by simp
      then show ?thesis
        using n2 by simp
    qed
  qed
qed

lemma ensureDirectoryExists_network_only:
  assumes "ensureDirectoryExists env c dirPath st = (b, st')"
  shows "network_only st st'"
proof -
  obtain e st1 where ch: "checkDirectoryExists env c dirPath st = (e, st1)"
    by (cases "checkDirectoryExists env c dirPath st")
  note n1 = checkDirectoryExists_network_only [OF ch]
  show ?thesis
  proof (cases e)
    case True
    then show ?thesis
      using assms ch n1 by (simp add: ensureDirectoryExists_walk)
  next
    case False
    then have "walk_prefixes env c (accumulated_prefixes (path_segments dirPath)) st1 = (b, st')"
      using assms ch by (simp add: ensureDirectoryExists_walk)
    then show ?thesis
      using n1 walk_prefixes_network_only network_only_trans by blast
  qed
qed

lemma addSyncLog_keeps_config:
  "cache (addSyncLog env trig succ msg st) = cache st"
  "webdav_config (addSyncLog env trig succ msg st) = webdav_config st"
  by (simp_all add: addSyncLog_cases)

section \<open>A failed upload leaves the configuration alone\<close>

lemma upload_try_keeps_config:
  assumes "upload_try env trig c st = (res, st')"
      and "\<forall>r. res = Inr r \<longrightarrow> \<not> res_success r"
  shows "cache st' = cache st \<and> webdav_config st' = webdav_config st"
  using assms
  by (auto simp: upload_try_def Let_def Date_now_def addSyncLog_keeps_config network_only_def
           split: prod.splits sum.splits bool.splits if_splits
           dest!: ensureDirectoryExists_network_only sendWebDAVRequest_network_only)

lemma getConfig_result:
  assumes "getConfig env st = (res, st0)"
  shows "webdav_config st0 = webdav_config st
         \<and> webdav_sync_logs st0 = webdav_sync_logs st
         \<and> trace st0 = trace st
         \<and> (case res of
              Inl e \<Rightarrow> cache st0 = cache st \<and> cache st = None
            | Inr c \<Rightarrow> cache st0 = Some c
                       \<and> (cache st = Some c
                           \<or> cache st = None
                             \<and> c = (case webdav_config st of Some c' \<Rightarrow> c' | None \<Rightarrow> default_config)))"
  using assms
  by (auto simp: getConfig_def storage_access_def Let_def split: option.splits)


lemma ensure_absent_dir:
  "fst (ensureDirectoryExists (example_env (absent_dir_server code reason) tz) example_config
          (js ''/bk'') st)
   \<longleftrightarrow> (200 \<le> code \<and> code \<le> 299) \<or> code = 405"
proof -
  have hd: "createHeaders (example_env (absent_dir_server code reason) tz) example_config None
            = Inr [(js ''Authorization'', js ''Basic '' @ username example_config @ js '':''
                      @ password example_config),
                   (js ''User-Agent'', js ''OneAPIHub-WebDAV-Client/1.0''),
                   (js ''Accept'', js ''*/*'')]"
    by (simp add: example_env_simps)
  show ?thesis
    by (simp add: ensureDirectoryExists_walk absent_dir_probe path_segments_bk
                  accumulated_prefixes_bk createDirectory_result [OF hd] absent_dir_mkcol
                  response_of_def bool.case_eq_if)
qed

text \<open>
  C10. When uploadBackup fails, by raising or by returning a result without success, the
  durable configuration is what it was, and so is the cached one; a cache that was still
  empty holds the configuration read from the store (the default one when the store has
  none). In particular last_backup_time is not changed.
\<close>

theorem uploadBackup_failure_keeps_config:
  assumes "uploadBackup env trig st = (res, st')"
      and "\<forall>r. res = Inr r \<longrightarrow> \<not> res_success r"
  shows "webdav_config st' = webdav_config st
         \<and> (cache st' = cache st
              \<or> cache st = None
                \<and> cache st' = Some (case webdav_config st of Some c \<Rightarrow> c | None \<Rightarrow> default_config))"
proof -
  obtain g st0 where g: "getConfig env st = (g, st0)"
    by (cases "getConfig env st")
  note gr = getConfig_result [OF g]
  show ?thesis
  proof (cases g)
    case (Inl e)
    then have "st' = st0"
      using assms(1) g by (simp add: uploadBackup_def)
    then show ?thesis
      using gr Inl by simp
  next
    case (Inr c)
    show ?thesis
    proof (cases "enabled c")
      case False
      then have "st' = st0"
        using assms(1) g Inr by (simp add: uploadBackup_def)
      then show ?thesis
        using gr Inr by auto
    next
      case True
      obtain r1 st1 where u: "upload_try env trig c st0 = (r1, st1)"
        by (cases "upload_try env trig c st0")
      have keep: "cache st' = cache st0 \<and> webdav_config st' = webdav_config st0"
      proof (cases r1)
        case (Inl e)
        then have "st' = addSyncLog env trig False (msg_upload_error @ err_message e) st1"
          using assms(1) g Inr True u by (simp add: uploadBackup_def Let_def)
        moreover have "cache st1 = cache st0 \<and> webdav_config st1 = webdav_config st0"
          using upload_try_keeps_config [OF u] Inl by simp
        ultimately show ?thesis
          by (simp add: addSyncLog_keeps_config)
      next
        case r: (Inr r)
        then have "res = Inr r" "st' = st1"
          using assms(1) g Inr True u by (simp_all add: uploadBackup_def)
        then show ?thesis
          using upload_try_keeps_config [OF u] r assms(2) by simp
      qed
      then show ?thesis
        using gr Inr by auto
    qed
  qed
qed

theorem uploadBackup_failure_keeps_config_witness:
  "\<not> res_success (projr (fst (uploadBackup (example_env (absent_dir_server 409 (js ''Conflict'')) utc)
                                  trigger_manual (example_state example_config []))))
   \<and> webdav_config (snd (uploadBackup (example_env (absent_dir_server 409 (js ''Conflict'')) utc)
                            trigger_manual (example_state example_config [])))
       = Some example_config
   \<and> cache (snd (uploadBackup (example_env (absent_dir_server 409 (js ''Conflict'')) utc)
                    trigger_manual (example_state example_config [])))
       = Some example_config"
proof -
  let ?E = "example_env (absent_dir_server 409 (js ''Conflict'')) utc"
  let ?S = "example_state example_config []"
  let ?G = "?S\<lparr>storage_ops := Suc 0, cache := Some example_config\<rparr>"
  have g: "getConfig ?E ?S = (Inr example_config, ?G)"
    by (simp add: getConfig_def storage_access_def example_env_simps example_state_def)
  obtain b st1 where e: "ensureDirectoryExists ?E example_config (js ''/bk'') ?G = (b, st1)"
    by (cases "ensureDirectoryExists ?E example_config (js ''/bk'') ?G")
  have "\<not> b"
    using ensure_absent_dir [of 409 "js ''Conflict''" utc ?G] e by simp
  then have u: "uploadBackup ?E trigger_manual ?S
             = (Inr \<lparr>res_success = False, res_message = msg_cannot_create_dir,
                      res_files = None\<rparr>, st1)"
    using g e by (simp add: uploadBackup_def upload_try_def example_config_def)
  have f: "\<forall>r. Inr \<lparr>res_success = False, res_message = msg_cannot_create_dir,
                      res_files = None\<rparr> = Inr r \<longrightarrow> \<not> res_success r"
    by auto
  note t = uploadBackup_failure_keeps_config [OF u f]
  have "webdav_config st1 = Some example_config"
    using t by (simp add: example_state_def)
  moreover have "cache st1 = Some example_config"
    using ensureDirectoryExists_network_only [OF e] by (simp add: network_only_def)
  ultimately show ?thesis
    using u by simp
qed

section \<open>The successful upload and the example server\<close>

lemma sendWebDAVRequest_last_trace:
  assumes "sendWebDAVRequest env req st = (r, st')"
  shows "trace st' \<noteq> [] \<and> last (trace st') = req"
  using assms by (auto simp: sendWebDAVRequest_unfolded split: if_splits)

lemma addSyncLog_keeps_trace:
  "trace (addSyncLog env trig succ msg st) = trace st"
  by (simp add: addSyncLog_cases)

lemma saveConfig_result:
  "saveConfig env c st =
     (if storage_fault env (storage_ops st) = None
      then (True, st\<lparr>storage_ops := Suc (storage_ops st), webdav_config := Some c,
                      cache := Some c\<rparr>)
      else (False, st\<lparr>storage_ops := Suc (storage_ops st)\<rparr>))"
  by (auto simp: saveConfig_def storage_access_def split: option.splits)

lemma sendWebDAVRequest_effect:
  assumes "sendWebDAVRequest env req st = (r, st')"
  shows "network_only st st' \<and> trace st' \<noteq> [] \<and> last (trace st') = req"
  using assms sendWebDAVRequest_network_only sendWebDAVRequest_last_trace by blast

lemma upload_try_success:
  assumes "upload_try env trig c st = (Inr r, st')" "res_success r"
  shows "\<exists>h bd. cache st' = Some (c\<lparr>last_backup_time := clock env (Suc (ticks st))\<rparr>)
           \<and> res_message r
               = msg_upload_ok @ backup_filename (new_Date (tza env) (clock env (Suc (ticks st))))
           \<and> trace st' \<noteq> []
           \<and> last (trace st') = put_request env h c (clock env (Suc (ticks st))) bd
           \<and> (if storage_fault env (storage_ops st) = None
                then webdav_config st' = Some (c\<lparr>last_backup_time := clock env (Suc (ticks st))\<rparr>)
                else webdav_config st' = webdav_config st)"
  using assms
  by (auto simp: upload_try_def Let_def Date_now_def addSyncLog_keeps_config
                 addSyncLog_keeps_trace saveConfig_result network_only_def put_request_def
           split: prod.splits sum.splits bool.splits if_splits
           dest!: ensureDirectoryExists_network_only sendWebDAVRequest_effect)


lemma getConfig_ticks:
  "getConfig env st = (res, st0) \<Longrightarrow> ticks st0 = ticks st"
  by (auto simp: getConfig_def storage_access_def Let_def split: option.splits)

lemma digits_eval:
  "n < 10 \<Longrightarrow> digits n = [48 + n]"
  by (simp add: digits.simps [of n])

lemma example_date:
  "new_Date utc 1729990800000
   = \<lparr>getFullYear = 2024, getMonth = 9, getDate = 27, getHours = 1, getMinutes = 0,
      getSeconds = 0\<rparr>"
  by code_simp

lemma example_filename:
  "backup_filename (new_Date utc 1729990800000) = js ''backup-2024-10-27_01-00-00.json''"
  unfolding example_date
  by (simp add: backup_filename_def String_int_def padStart_def digits.simps js_def Let_def)

lemma present_dir_probe:
  "checkDirectoryExists (example_env (present_dir_server code reason) tz) c dirPath st
   = (True, st\<lparr>trace := trace st @
        [\<lparr>req_url = normalizePath (server_url c) dirPath, req_method = js ''PROPFIND'',
          req_headers =
            [(js ''Authorization'', js ''Basic '' @ username c @ js '':'' @ password c),
             (js ''User-Agent'', js ''OneAPIHub-WebDAV-Client/1.0''), (js ''Accept'', js ''*/*''),
             (js ''Content-Type'', js ''application/xml''), (js ''Depth'', js ''0'')],
          req_body = Some propfind_resourcetype\<rparr>]\<rparr>)"
  by (simp add: checkDirectoryExists_def example_env_simps Let_def
                sendWebDAVRequest_delivered present_dir_server_def response_of_def)

lemma present_dir_other:
  assumes "req_method req \<noteq> js ''PROPFIND''"
  shows "sendWebDAVRequest (example_env (present_dir_server code reason) tz) req st
         = (Inr (response_of code reason), st\<lparr>trace := trace st @ [req]\<rparr>)"
  using assms
  by (simp add: example_env_simps sendWebDAVRequest_delivered present_dir_server_def)

lemma put_is_not_propfind: "js ''PUT'' \<noteq> js ''PROPFIND''"
  by (simp add: js_def)

lemma example_getConfig:
  "getConfig (example_env ch tz) (example_state c logs)
   = (Inr c, (example_state c logs)\<lparr>storage_ops := Suc 0, cache := Some c\<rparr>)"
  by (simp add: getConfig_def storage_access_def example_env_simps example_state_def)

lemma example_state_fields:
  "cache (example_state c logs) = None"
  "webdav_config (example_state c logs) = Some c"
  "webdav_sync_logs (example_state c logs) = Some logs"
  "trace (example_state c logs) = []"
  "sleeps (example_state c logs) = []"
  "ticks (example_state c logs) = 0"
  "storage_ops (example_state c logs) = 0"
  by (simp_all add: example_state_def)

lemma example_config_fields:
  "enabled example_config"
  "auto_sync_on_change example_config"
  "backup_path example_config = js ''/bk''"
  "server_url example_config = js ''https://dav.example.com''"
  "last_backup_time example_config = 0"
  by (simp_all add: example_config_def)

lemma present_dir_ensure:
  "ensureDirectoryExists (example_env (present_dir_server code reason) tz) c dirPath st
   = checkDirectoryExists (example_env (present_dir_server code reason) tz) c dirPath st"
  by (simp add: ensureDirectoryExists_walk present_dir_probe)

lemma present_dir_upload_try:
  "fst (upload_try (example_env (present_dir_server code reason) tz) trig c st)
   = (if 200 \<le> code \<and> code \<le> 299
      then Inr \<lparr>res_success = True,
                res_message = msg_upload_ok
                  @ backup_filename (new_Date tz (1729990799000 + 1000 * int (Suc (ticks st)))),
                res_files = None\<rparr>
      else Inr \<lparr>res_success = False,
                res_message = upload_error_message (response_of code reason),
                res_files = None\<rparr>)"
  by (simp add: upload_try_def present_dir_ensure present_dir_probe present_dir_other
                put_is_not_propfind example_env_simps Date_now_def response_of_def Let_def
                split_beta)

lemma present_dir_upload:
  assumes "enabled c"
  shows "fst (uploadBackup (example_env (present_dir_server code reason) tz) trig
                (example_state c logs))
   = (if 200 \<le> code \<and> code \<le> 299
      then Inr \<lparr>res_success = True,
                res_message = msg_upload_ok @ backup_filename (new_Date tz 1729990800000),
                res_files = None\<rparr>
      else Inr \<lparr>res_success = False,
                res_message = upload_error_message (response_of code reason),
                res_files = None\<rparr>)"
proof -
  let ?E = "example_env (present_dir_server code reason) tz"
  let ?G = "(example_state c logs)\<lparr>storage_ops := Suc 0, cache := Some c\<rparr>"
  obtain r1 st1 where u: "upload_try ?E trig c ?G = (r1, st1)"
    by (cases "upload_try ?E trig c ?G")
  have r1: "r1 = (if 200 \<le> code \<and> code \<le> 299
      then Inr \<lparr>res_success = True,
                res_message = msg_upload_ok @ backup_filename (new_Date tz 1729990800000),
                res_files = None\<rparr>
      else Inr \<lparr>res_success = False,
                res_message = upload_error_message (response_of code reason),
                res_files = None\<rparr>)"
    using present_dir_upload_try [of code reason tz trig c ?G] u
    by (simp add: example_state_fields)
  show ?thesis
    using assms u r1 by (auto simp: uploadBackup_def example_getConfig)
qed

section \<open>The audit entry of an upload\<close>














section \<open>syncOnDataChange\<close>

lemma syncOnDataChange_never_raises:
  "fst (syncOnDataChange env trig st) = Inr ()"
  by (simp add: syncOnDataChange_def Let_def split: prod.splits sum.splits)

lemma syncOnDataChange_noop:
  assumes "getConfig env st = (Inr c, st0)" and "\<not> (enabled c \<and> auto_sync_on_change c)"
  shows "syncOnDataChange env trig st = (Inr (), st0)"
  using assms by (auto simp: syncOnDataChange_def)

lemma timing_out_send:
  "sendWebDAVRequest (example_env timing_out tz) req st
   = (Inl (Error msg_timeout), st\<lparr>trace := trace st @ [req]\<rparr>)"
proof -
  have "attempt_result (example_env timing_out tz) (trace st) req = Inl (Error msg_timeout)"
    by (simp add: attempt_result_def example_env_simps timing_out_def)
  then show ?thesis
    by (rule sendWebDAVRequest_not_retried) (simp add: marker_in_messages)
qed

lemma timing_out_probe:
  "\<not> fst (checkDirectoryExists (example_env timing_out tz) c dirPath st)"
  "trace (snd (checkDirectoryExists (example_env timing_out tz) c dirPath st))
   = trace st @ [\<lparr>req_url = normalizePath (server_url c) dirPath, req_method = js ''PROPFIND'',
          req_headers =
            [(js ''Authorization'', js ''Basic '' @ username c @ js '':'' @ password c),
             (js ''User-Agent'', js ''OneAPIHub-WebDAV-Client/1.0''), (js ''Accept'', js ''*/*''),
             (js ''Content-Type'', js ''application/xml''), (js ''Depth'', js ''0'')],
          req_body = Some propfind_resourcetype\<rparr>]"
  "webdav_sync_logs (snd (checkDirectoryExists (example_env timing_out tz) c dirPath st))
   = webdav_sync_logs st"
  by (simp_all add: checkDirectoryExists_def example_env_simps timing_out_send Let_def)

lemma timing_out_create:
  "\<not> fst (createDirectory (example_env timing_out tz) c dirPath st)"
  "trace (snd (createDirectory (example_env timing_out tz) c dirPath st))
   = trace st @ [mkcol_request
            [(js ''Authorization'', js ''Basic '' @ username c @ js '':'' @ password c),
             (js ''User-Agent'', js ''OneAPIHub-WebDAV-Client/1.0''), (js ''Accept'', js ''*/*'')]
            c dirPath]"
  "webdav_sync_logs (snd (createDirectory (example_env timing_out tz) c dirPath st))
   = webdav_sync_logs st"
  by (simp_all add: createDirectory_def example_env_simps timing_out_send Let_def
                    mkcol_request_def)

lemma timing_out_ensure:
  "\<not> fst (ensureDirectoryExists (example_env timing_out tz) c (js ''/bk'') st)"
  "length (trace (snd (ensureDirectoryExists (example_env timing_out tz) c (js ''/bk'') st)))
   = length (trace st) + 3"
  "webdav_sync_logs (snd (ensureDirectoryExists (example_env timing_out tz) c (js ''/bk'') st))
   = webdav_sync_logs st"
  by (simp_all add: ensureDirectoryExists_walk path_segments_bk accumulated_prefixes_bk
                    timing_out_probe timing_out_create split_beta bool.case_eq_if)

text \<open>
  C9 at a failing input: data-change synchronisation is switched on and the proxy channel
  answers no request in time. Every request of the directory provisioning raises the
  time-out error; syncOnDataChange returns normally after three attempted requests, and
  the audit log is still empty: the exception was swallowed without a failure entry.
\<close>

theorem syncOnDataChange_timeout_unlogged:
  "attempt_result (example_env timing_out utc) [] example_request = Inl (Error msg_timeout)
   \<and> fst (syncOnDataChange (example_env timing_out utc) trigger_data_change
           (example_state example_config [])) = Inr ()
   \<and> length (trace (snd (syncOnDataChange (example_env timing_out utc) trigger_data_change
                          (example_state example_config [])))) = 3
   \<and> logs_of (snd (syncOnDataChange (example_env timing_out utc) trigger_data_change
                     (example_state example_config []))) = []"
proof -
  let ?E = "example_env timing_out utc"
  let ?S = "example_state example_config []"
  let ?G = "?S\<lparr>storage_ops := Suc 0, cache := Some example_config\<rparr>"
  have a: "attempt_result ?E [] example_request = Inl (Error msg_timeout)"
    by (simp add: attempt_result_def example_env_simps timing_out_def)
  have g: "getConfig ?E ?S = (Inr example_config, ?G)"
    by (rule example_getConfig)
  have g': "getConfig ?E ?G = (Inr example_config, ?G)"
    by (simp add: getConfig_def)
  obtain b st1 where e: "ensureDirectoryExists ?E example_config (js ''/bk'') ?G = (b, st1)"
    by (cases "ensureDirectoryExists ?E example_config (js ''/bk'') ?G")
  have e': "\<not> b" "length (trace st1) = 3" "webdav_sync_logs st1 = Some []"
    using timing_out_ensure [of utc example_config ?G] e
    by (simp_all add: example_state_fields)
  have u: "uploadBackup ?E trigger_data_change ?G
           = (Inr \<lparr>res_success = False, res_message = msg_cannot_create_dir, res_files = None\<rparr>,
              st1)"
    using g' e e'(1) by (simp add: uploadBackup_def upload_try_def example_config_fields)
  have s: "syncOnDataChange ?E trigger_data_change ?S = (Inr (), st1)"
    using g u by (simp add: syncOnDataChange_def example_config_fields)
  show ?thesis
    using a s e' by (simp add: logs_of_def)
qed

text \<open>
  The input above passes the guard of syncOnDataChange: both switches are set, so the
  empty log is not that of the no-op branch.
\<close>

theorem syncOnDataChange_timeout_unlogged_witness:
  "enabled example_config \<and> auto_sync_on_change example_config
   \<and> webdav_config (example_state example_config []) = Some example_config
   \<and> fst (syncOnDataChange (example_env timing_out utc) trigger_data_change
           (example_state example_config [])) = Inr ()
   \<and> length (trace (snd (syncOnDataChange (example_env timing_out utc) trigger_data_change
                          (example_state example_config [])))) = 3
   \<and> logs_of (snd (syncOnDataChange (example_env timing_out utc) trigger_data_change
                     (example_state example_config []))) = []"
  using syncOnDataChange_timeout_unlogged
  by (simp add: example_config_fields example_state_fields)

section \<open>The directory listing parser\<close>

lemma collect_files_sound:
  assumes "collect_files decode rs acc = Inr files"
  shows "\<forall>f\<in>set files. f \<in> set acc
           \<or> (f \<noteq> [] \<and> \<not> endsWith f (js ''/'')
               \<and> (\<exists>r\<in>set rs. entry_filename decode r = Inr f \<and> \<not> isDirectory r))"
  using assms
proof (induction rs arbitrary: acc)
  case Nil
  then show ?case by simp
next
  case (Cons r rs)
  show ?case
  proof (cases "entry_filename decode r")
    case (Inl e)
    then show ?thesis
      using Cons.prems by simp
  next
    case (Inr filename)
    show ?thesis
    proof (cases "filename \<noteq> [] \<and> \<not> endsWith filename (js ''/'') \<and> \<not> isDirectory r")
      case True
      then have "collect_files decode rs (acc @ [filename]) = Inr files"
        using Cons.prems Inr by simp
      from Cons.IH [OF this] show ?thesis
        using True Inr by auto
    next
      case False
      then have "collect_files decode rs acc = Inr files"
        using Cons.prems Inr by (auto split: if_splits)
      from Cons.IH [OF this] show ?thesis
        by auto
    qed
  qed
qed

lemma parse_document_sound:
  assumes "f \<in> set (parse_document decode xmlDoc)"
  shows "f \<noteq> [] \<and> \<not> endsWith f (js ''/'')
         \<and> (\<exists>r\<in>set (find_responses xmlDoc possibleResponseTags).
               entry_filename decode r = Inr f \<and> \<not> isDirectory r)"
proof -
  show ?thesis
  proof (cases "collect_files decode (find_responses xmlDoc possibleResponseTags) []")
    case (Inl e)
    then show ?thesis
      using assms by (simp add: parse_document_def Let_def split: if_splits)
  next
    case (Inr files)
    then have "f \<in> set files"
      using assms by (simp add: parse_document_def Let_def split: if_splits)
    then show ?thesis
      using collect_files_sound [OF Inr] by auto
  qed
qed

text \<open>
  C4 at a failing input. The same two-entry listing, one collection and one snapshot,
  is parsed to the snapshot name alone when its element names carry no prefix, and to
  the collection's display name and the snapshot name when they carry the prefix
  \<open>d:\<close> or \<open>D:\<close>.
\<close>

theorem parse_document_prefixed_collection:
  "parse_document (\<lambda>s. Inr s) (example_listing []) = [js ''backup-2024-10-27_01-00-00.json'']
   \<and> parse_document (\<lambda>s. Inr s) (example_listing (js ''d:''))
       = [js ''bk'', js ''backup-2024-10-27_01-00-00.json'']
   \<and> parse_document (\<lambda>s. Inr s) (example_listing (js ''D:''))
       = [js ''bk'', js ''backup-2024-10-27_01-00-00.json'']"
  by (simp add: parse_document_def example_listing_def listing_entry_def
                possibleResponseTags_def possibleDisplayNameTags_def possibleHrefTags_def
                document_getElementsByTagName_def getElementsByTagName_def entry_filename_def
                isDirectory_def trim_def is_js_space_def endsWith_def js_def Let_def)

section \<open>File names and the order of the listing\<close>

lemma append_le_same_length:
  fixes u v x y :: "nat list"
  assumes "length u = length v"
  shows "u @ x \<le> v @ y \<longleftrightarrow> u < v \<or> (u = v \<and> x \<le> y)"
  using assms by (induction u v rule: list_induct2) auto

lemma pad2:
  assumes "0 \<le> i" "i \<le> 99"
  shows "padStart (String_int i) 2 (js ''0'') = [48 + nat i div 10, 48 + nat i mod 10]"
proof (cases "i < 10")
  case True
  then have "nat i < 10" "nat i div 10 = 0" "nat i mod 10 = nat i"
    using assms by simp_all
  then show ?thesis
    using assms by (simp add: padStart_def String_int_def digits.simps [of "nat i"] js_def)
next
  case False
  then have a: "\<not> nat i < 10" and b: "nat i div 10 < 10"
    using assms by simp_all
  show ?thesis
    using assms a b
    by (simp add: padStart_def String_int_def digits.simps [of "nat i"]
                  digits.simps [of "nat i div 10"] js_def)
qed

lemma year4:
  assumes "1000 \<le> i" "i \<le> 9999"
  shows "String_int i = [48 + nat i div 1000, 48 + nat i div 100 mod 10,
                         48 + nat i div 10 mod 10, 48 + nat i mod 10]"
proof -
  let ?n = "nat i"
  have n: "1000 \<le> ?n" "?n \<le> 9999"
    using assms by simp_all
  have a: "\<not> ?n < 10" "\<not> ?n div 10 < 10" "\<not> ?n div 100 < 10" "?n div 1000 < 10"
    using n by simp_all
  have d: "?n div 10 div 10 = ?n div 100" "?n div 100 div 10 = ?n div 1000"
    by (simp_all add: div_mult2_eq [symmetric])
  have s1: "digits ?n = digits (?n div 10) @ [48 + ?n mod 10]"
    by (subst digits.simps) (simp only: a if_False)
  have s2: "digits (?n div 10) = digits (?n div 100) @ [48 + ?n div 10 mod 10]"
    by (subst digits.simps) (simp only: a d if_False)
  have s3: "digits (?n div 100) = digits (?n div 1000) @ [48 + ?n div 100 mod 10]"
    by (subst digits.simps) (simp only: a d if_False)
  have s4: "digits (?n div 1000) = [48 + ?n div 1000]"
    by (subst digits.simps) (simp only: a if_True)
  show ?thesis
    using assms by (simp add: String_int_def s1 s2 s3 s4)
qed


lemma lex10:
  fixes a b r s :: nat
  assumes "r < 10" "s < 10"
  shows "(a < b \<or> a = b \<and> r < s) = (10 * a + r < 10 * b + s)"
    and "(a = b \<and> r = s) = (10 * a + r = 10 * b + s)"
  using assms by arith+

lemma div_mod_10_order:
  fixes n m :: nat
  shows "(n div 10 < m div 10 \<or> n div 10 = m div 10 \<and> n mod 10 < m mod 10) = (n < m)"
    and "(n div 10 = m div 10 \<and> n mod 10 = m mod 10) = (n = m)"
  using lex10 [of "n mod 10" "m mod 10" "n div 10" "m div 10"] by simp_all

lemma append_less_same_length:
  fixes u v x y :: "nat list"
  assumes "length u = length v"
  shows "u @ x < v @ y \<longleftrightarrow> u < v \<or> (u = v \<and> x < y)"
  using assms by (induction u v rule: list_induct2) auto

lemma two_digits_order:
  fixes n m :: nat
  shows "([48 + n div 10, 48 + n mod 10] < [48 + m div 10, 48 + m mod 10]) = (n < m)"
    and "([48 + n div 10, 48 + n mod 10] = [48 + m div 10, 48 + m mod 10]) = (n = m)"
  using div_mod_10_order [of n m] by simp_all

lemma digits_nonempty: "digits n \<noteq> []"
  by (subst digits.simps) simp

lemma digits_length_small: "n < 10 \<Longrightarrow> length (digits n) = 1"
  by (subst digits.simps) simp

lemma digits_length_large: "\<not> n < 10 \<Longrightarrow> 2 \<le> length (digits n)"
proof -
  assume a: "\<not> n < 10"
  have "1 \<le> length (digits (n div 10))"
    using digits_nonempty [of "n div 10"] by (cases "digits (n div 10)") simp_all
  moreover have "length (digits n) = length (digits (n div 10)) + 1"
    using a by (subst digits.simps) simp
  ultimately show ?thesis by linarith
qed

lemma digits_order:
  "length (digits n) = length (digits m)
   \<Longrightarrow> (digits n < digits m) = (n < m) \<and> (digits n = digits m) = (n = m)"
proof (induction n arbitrary: m rule: digits.induct)
  case (1 n)
  note len = "1.prems"
  have small: "n < 10 \<longleftrightarrow> m < 10"
    using len digits_length_small [of n] digits_length_small [of m]
          digits_length_large [of n] digits_length_large [of m]
    by fastforce
  show ?case
  proof (cases "n < 10")
    case True
    then have "digits n = [48 + n]" "digits m = [48 + m]"
      using small by (simp_all add: digits.simps [of n] digits.simps [of m])
    then show ?thesis by simp
  next
    case False
    then have dn: "digits n = digits (n div 10) @ [48 + n mod 10]"
      and dm: "digits m = digits (m div 10) @ [48 + m mod 10]"
      using small by (simp_all add: digits.simps [of n] digits.simps [of m])
    have l: "length (digits (n div 10)) = length (digits (m div 10))"
      using len dn dm by simp
    have ih: "(digits (n div 10) < digits (m div 10)) = (n div 10 < m div 10)"
      "(digits (n div 10) = digits (m div 10)) = (n div 10 = m div 10)"
      using "1.IH" [OF False l] by simp_all
    show ?thesis
      using div_mod_10_order [of n m]
      by (simp add: dn dm append_less_same_length [OF l] ih)
  qed
qed


lemma pad2_order:
  assumes "0 \<le> i" "i \<le> 99" "0 \<le> j" "j \<le> 99"
  shows "(padStart (String_int i) 2 (js ''0'') < padStart (String_int j) 2 (js ''0'')) = (i < j)"
    and "(padStart (String_int i) 2 (js ''0'') = padStart (String_int j) 2 (js ''0'')) = (i = j)"
    and "length (padStart (String_int i) 2 (js ''0'')) = 2"
proof -
  have n: "(nat i < nat j) = (i < j)" "(nat i = nat j) = (i = j)"
    using assms by auto
  show "(padStart (String_int i) 2 (js ''0'') < padStart (String_int j) 2 (js ''0'')) = (i < j)"
    using assms two_digits_order(1) [of "nat i" "nat j"] n by (simp only: pad2)
  show "(padStart (String_int i) 2 (js ''0'') = padStart (String_int j) 2 (js ''0'')) = (i = j)"
    using assms two_digits_order(2) [of "nat i" "nat j"] n by (simp only: pad2)
  show "length (padStart (String_int i) 2 (js ''0'')) = 2"
    using assms by (simp add: pad2)
qed

lemma year4_order:
  assumes "1000 \<le> i" "i \<le> 9999" "1000 \<le> j" "j \<le> 9999"
  shows "(String_int i < String_int j) = (i < j)"
    and "(String_int i = String_int j) = (i = j)"
    and "length (String_int i) = 4"
proof -
  have l: "length (String_int i) = 4" "length (String_int j) = 4"
    using assms by (simp_all add: year4)
  have s: "String_int i = digits (nat i)" "String_int j = digits (nat j)"
    using assms by (simp_all add: String_int_def)
  have "length (digits (nat i)) = length (digits (nat j))"
    using l s by simp
  from digits_order [OF this]
  show "(String_int i < String_int j) = (i < j)" "(String_int i = String_int j) = (i = j)"
    using assms s by auto
  show "length (String_int i) = 4"
    by (rule l)
qed

lemma backup_filename_order:
  assumes "four_digit_reading d1" and "four_digit_reading d2"
  shows "(backup_filename d1 \<le> backup_filename d2) = (date_key d1 \<le> date_key d2)"
proof -
  note y = year4_order [of "getFullYear d1" "getFullYear d2"]
  note mo = pad2_order [of "getMonth d1 + 1" "getMonth d2 + 1"]
  note da = pad2_order [of "getDate d1" "getDate d2"]
  note ho = pad2_order [of "getHours d1" "getHours d2"]
  note mi = pad2_order [of "getMinutes d1" "getMinutes d2"]
  note se = pad2_order [of "getSeconds d1" "getSeconds d2"]
  have r: "1000 \<le> getFullYear d1" "getFullYear d1 \<le> 9999"
          "1000 \<le> getFullYear d2" "getFullYear d2 \<le> 9999"
          "0 \<le> getMonth d1 + 1" "getMonth d1 + 1 \<le> 99"
          "0 \<le> getMonth d2 + 1" "getMonth d2 + 1 \<le> 99"
          "0 \<le> getDate d1" "getDate d1 \<le> 99" "0 \<le> getDate d2" "getDate d2 \<le> 99"
          "0 \<le> getHours d1" "getHours d1 \<le> 99" "0 \<le> getHours d2" "getHours d2 \<le> 99"
          "0 \<le> getMinutes d1" "getMinutes d1 \<le> 99"
          "0 \<le> getMinutes d2" "getMinutes d2 \<le> 99"
          "0 \<le> getSeconds d1" "getSeconds d1 \<le> 99"
          "0 \<le> getSeconds d2" "getSeconds d2 \<le> 99"
    using assms by (simp_all add: four_digit_reading_def)
  have len: "length (String_int (getFullYear d1)) = length (String_int (getFullYear d2))"
    "length (padStart (String_int (getMonth d1 + 1)) 2 (js ''0''))
     = length (padStart (String_int (getMonth d2 + 1)) 2 (js ''0''))"
    "length (padStart (String_int (getDate d1)) 2 (js ''0''))
     = length (padStart (String_int (getDate d2)) 2 (js ''0''))"
    "length (padStart (String_int (getHours d1)) 2 (js ''0''))
     = length (padStart (String_int (getHours d2)) 2 (js ''0''))"
    "length (padStart (String_int (getMinutes d1)) 2 (js ''0''))
     = length (padStart (String_int (getMinutes d2)) 2 (js ''0''))"
    "length (padStart (String_int (getSeconds d1)) 2 (js ''0''))
     = length (padStart (String_int (getSeconds d2)) 2 (js ''0''))"
    using r by (simp_all add: year4_order(3) pad2_order(3))
  have sep: "(u @ x \<le> u @ y) = (x \<le> y)" for u x y :: "nat list"
    by (simp add: append_le_same_length)
  have "(backup_filename d1 \<le> backup_filename d2)
        = (getFullYear d1 < getFullYear d2 \<or> getFullYear d1 = getFullYear d2 \<and>
          (getMonth d1 < getMonth d2 \<or> getMonth d1 = getMonth d2 \<and>
          (getDate d1 < getDate d2 \<or> getDate d1 = getDate d2 \<and>
          (getHours d1 < getHours d2 \<or> getHours d1 = getHours d2 \<and>
          (getMinutes d1 < getMinutes d2 \<or> getMinutes d1 = getMinutes d2 \<and>
           getSeconds d1 \<le> getSeconds d2)))))"
    unfolding backup_filename_def Let_def
    by (simp only: sep append_le_same_length [OF len(1)] append_le_same_length [OF len(2)]
                   append_le_same_length [OF len(3)] append_le_same_length [OF len(4)]
                   append_le_same_length [OF len(5)] append_le_same_length [OF len(6)]
                   y(1,2) [OF r(1-4)] mo(1,2) [OF r(5-8)] da(1,2) [OF r(9-12)]
                   ho(1,2) [OF r(13-16)] mi(1,2) [OF r(17-20)] se(1,2) [OF r(21-24)])
       auto
  then show ?thesis
    by (auto simp: date_key_def)
qed

lemma sorted_desc_rev_sort:
  fixes xs :: "nat list list"
  shows "sorted_wrt (\<lambda>a b. b \<le> a) (rev (sort xs))"
proof -
  have "sorted_wrt (\<le>) (sort xs)"
    by (rule sorted_sort)
  then show ?thesis
    by (simp add: sorted_wrt_rev)
qed

lemma getBackupList_success:
  assumes "getBackupList env st = (Inr r, st')" and "res_success r"
  shows "\<exists>c st0 h resp. getConfig env st = (Inr c, st0)
           \<and> createHeaders env c (Some (js ''application/xml'')) = Inr h
           \<and> sendWebDAVRequest env (listing_request h c) st0 = (Inr resp, st')
           \<and> ok resp
           \<and> res_files r
               = Some (rev (sort (filter (\<lambda>f. endsWith f (js ''.json''))
                                   (parseWebDAVResponse env (bodyText resp)))))"
  using assms
  by (auto simp: getBackupList_def list_try_def listing_request_def Let_def
           split: prod.splits sum.splits if_splits)


lemma berlin_dates:
  "new_Date berlin 1729990799000
   = \<lparr>getFullYear = 2024, getMonth = 9, getDate = 27, getHours = 2, getMinutes = 59,
      getSeconds = 59\<rparr>"
  "new_Date berlin 1729990800000
   = \<lparr>getFullYear = 2024, getMonth = 9, getDate = 27, getHours = 2, getMinutes = 0,
      getSeconds = 0\<rparr>"
  by code_simp+

lemma utc_dates:
  "new_Date utc 1729990799000
   = \<lparr>getFullYear = 2024, getMonth = 9, getDate = 27, getHours = 0, getMinutes = 59,
      getSeconds = 59\<rparr>"
  by code_simp

lemma berlin_filenames:
  "backup_filename (new_Date berlin 1729990799000) = js ''backup-2024-10-27_02-59-59.json''"
  "backup_filename (new_Date berlin 1729990800000) = js ''backup-2024-10-27_02-00-00.json''"
  unfolding berlin_dates
  by (simp_all add: backup_filename_def String_int_def padStart_def digits.simps js_def Let_def)

text \<open>
  C8 as stated fails on a host in a time zone with daylight saving. In Central European
  time, an upload at 2024-10-27 00:59:59 UTC is named after the local reading 02:59:59,
  and an upload one second later, when the clocks have gone back, after 02:00:00: the
  later file name is lexically smaller.
\<close>

theorem backup_filename_dst_counterexample:
  "(1729990799000 :: int) < 1729990799000 + 1000
   \<and> backup_filename (new_Date berlin 1729990799000) = js ''backup-2024-10-27_02-59-59.json''
   \<and> backup_filename (new_Date berlin (1729990799000 + 1000))
       = js ''backup-2024-10-27_02-00-00.json''
   \<and> \<not> backup_filename (new_Date berlin 1729990799000)
         \<le> backup_filename (new_Date berlin (1729990799000 + 1000))"
  by (simp add: berlin_filenames js_def)


lemma example_env_parser:
  "parseWebDAVResponse (example_env ch tz) t = [js ''backup-2024-10-27_01-00-00.json'']"
  by (simp add: parseWebDAVResponse_def example_env_def
                parse_document_def example_listing_def listing_entry_def
                possibleResponseTags_def possibleDisplayNameTags_def possibleHrefTags_def
                document_getElementsByTagName_def getElementsByTagName_def entry_filename_def
                isDirectory_def trim_def is_js_space_def endsWith_def js_def Let_def)

lemma example_list:
  "fst (getBackupList (example_env (present_dir_server 201 (js ''Created'')) utc)
          (example_state example_config []))
   = Inr \<lparr>res_success = True, res_message = msg_list_ok,
          res_files = Some [js ''backup-2024-10-27_01-00-00.json'']\<rparr>"
proof -
  have e: "endsWith (js ''backup-2024-10-27_01-00-00.json'') (js ''.json'')"
    by (simp add: endsWith_def js_def)
  show ?thesis
    by (simp add: getBackupList_def example_getConfig example_config_fields list_try_def
                  example_env_simps sendWebDAVRequest_delivered present_dir_server_def
                  response_of_def example_env_parser e Let_def)
qed

text \<open>
  C8, as the code has it. For calendar readings whose year has four digits, the file
  names are ordered lexically exactly as the readings (year, month, day, hour, minute,
  second) are: as long as the host's local calendar reading does not go back from one
  upload to the next, the file names do not decrease. A successful getBackupList returns
  the names parsed from the answered listing that end in \<open>.json\<close>, sorted and reversed,
  that is in lexical descending order.
\<close>

theorem backup_listing_order:
  "(four_digit_reading d1 \<and> four_digit_reading d2 \<longrightarrow>
      (backup_filename d1 \<le> backup_filename d2) = (date_key d1 \<le> date_key d2))
   \<and> (getBackupList env st = (Inr r, st') \<and> res_success r \<longrightarrow>
        (\<exists>c st0 h resp files. getConfig env st = (Inr c, st0)
           \<and> createHeaders env c (Some (js ''application/xml'')) = Inr h
           \<and> sendWebDAVRequest env (listing_request h c) st0 = (Inr resp, st')
           \<and> ok resp
           \<and> res_files r = Some files
           \<and> files = rev (sort (filter (\<lambda>f. endsWith f (js ''.json''))
                                   (parseWebDAVResponse env (bodyText resp))))
           \<and> sorted_wrt (\<lambda>a b. b \<le> a) files))"
proof (intro conjI impI)
  assume "four_digit_reading d1 \<and> four_digit_reading d2"
  then show "(backup_filename d1 \<le> backup_filename d2) = (date_key d1 \<le> date_key d2)"
    using backup_filename_order by blast
next
  assume a: "getBackupList env st = (Inr r, st') \<and> res_success r"
  then obtain c st0 h resp where g:
    "getConfig env st = (Inr c, st0)"
    "createHeaders env c (Some (js ''application/xml'')) = Inr h"
    "sendWebDAVRequest env (listing_request h c) st0 = (Inr resp, st')"
    "ok resp"
    "res_files r = Some (rev (sort (filter (\<lambda>f. endsWith f (js ''.json''))
                                   (parseWebDAVResponse env (bodyText resp)))))"
    using getBackupList_success by blast
  show "\<exists>c st0 h resp files. getConfig env st = (Inr c, st0)
           \<and> createHeaders env c (Some (js ''application/xml'')) = Inr h
           \<and> sendWebDAVRequest env (listing_request h c) st0 = (Inr resp, st')
           \<and> ok resp
           \<and> res_files r = Some files
           \<and> files = rev (sort (filter (\<lambda>f. endsWith f (js ''.json''))
                                   (parseWebDAVResponse env (bodyText resp))))
           \<and> sorted_wrt (\<lambda>a b. b \<le> a) files"
    using g sorted_desc_rev_sort by blast
qed

theorem backup_listing_order_witness:
  "four_digit_reading (new_Date utc 1729990799000)
   \<and> four_digit_reading (new_Date utc 1729990800000)
   \<and> date_key (new_Date utc 1729990799000) \<le> date_key (new_Date utc 1729990800000)
   \<and> backup_filename (new_Date utc 1729990799000) \<le> backup_filename (new_Date utc 1729990800000)
   \<and> (\<exists>files. res_files (projr (fst (getBackupList
                (example_env (present_dir_server 201 (js ''Created'')) utc)
                (example_state example_config [])))) = Some files
         \<and> sorted_wrt (\<lambda>a b. b \<le> a) files)"
proof -
  let ?E = "example_env (present_dir_server 201 (js ''Created'')) utc"
  let ?S = "example_state example_config []"
  let ?r = "\<lparr>res_success = True, res_message = msg_list_ok,
            res_files = Some [js ''backup-2024-10-27_01-00-00.json'']\<rparr>"
  have f: "four_digit_reading (new_Date utc 1729990799000)"
          "four_digit_reading (new_Date utc 1729990800000)"
    by (simp_all add: utc_dates example_date four_digit_reading_def)
  have k: "date_key (new_Date utc 1729990799000) \<le> date_key (new_Date utc 1729990800000)"
    by (simp add: utc_dates example_date date_key_def)
  have l: "fst (getBackupList ?E ?S) = Inr ?r"
    by (rule example_list)
  then have h: "getBackupList ?E ?S = (Inr ?r, snd (getBackupList ?E ?S)) \<and> res_success ?r"
    by (metis prod.collapse webdav_result.select_convs(1))
  note t = backup_listing_order [of "new_Date utc 1729990799000" "new_Date utc 1729990800000"
                                    ?E ?S ?r "snd (getBackupList ?E ?S)"]
  have a: "backup_filename (new_Date utc 1729990799000)
           \<le> backup_filename (new_Date utc 1729990800000)"
    using t f k by blast
  obtain files where b: "res_files ?r = Some files" "sorted_wrt (\<lambda>a b. b \<le> a) files"
    using t h by blast
  have "\<exists>files. res_files (projr (fst (getBackupList ?E ?S))) = Some files
                \<and> sorted_wrt (\<lambda>a b. b \<le> a) files"
    using b l by auto
  then show ?thesis
    using f k a by blast
qed

section \<open>One timestamp for the file name and the last backup time\<close>

lemma getConfig_storage_ops:
  assumes "getConfig env st = (Inr c, st0)"
  shows "storage_ops st0 = (if cache st = None then Suc (storage_ops st) else storage_ops st)"
  using assms
  by (auto simp: getConfig_def storage_access_def Let_def split: option.splits)

lemma backup_filename_reading:
  assumes "four_digit_reading d1" and "four_digit_reading d2"
      and "backup_filename d1 = backup_filename d2"
  shows "date_key d1 = date_key d2"
proof -
  have "date_key d1 \<le> date_key d2"
    using backup_filename_order [OF assms(1,2)] assms(3) by simp
  moreover have "date_key d2 \<le> date_key d1"
    using backup_filename_order [OF assms(2,1)] assms(3) by simp
  ultimately show ?thesis
    by (rule antisym)
qed

text \<open>
  C3. In a successful upload the cached configuration is the one that was read with
  \<open>last_backup_time\<close> set to one reading of the clock, the second of the call. The file
  name in the result message and in the URL of the PUT request, the last request sent, is
  made from that same reading: \<open>backup-\<close>, then the year, the month, the day, the hour,
  the minute and the second of its local calendar reading, the last five padded to two
  digits, then \<open>.json\<close>. Among readings with a four-digit year the name belongs to no
  other calendar second. The durable configuration is the cached one when the store
  accepted the configuration write, and is as before otherwise.
\<close>

theorem uploadBackup_single_timestamp:
  assumes "uploadBackup env trig st = (Inr r, st')" and "res_success r"
  shows "\<exists>c0 c h bd name.
           fst (getConfig env st) = Inr c0
           \<and> c = c0\<lparr>last_backup_time := clock env (Suc (ticks st))\<rparr>
           \<and> cache st' = Some c
           \<and> last_backup_time c = clock env (Suc (ticks st))
           \<and> name = (let now = new_Date (tza env) (last_backup_time c)
                      in js ''backup-'' @ String_int (getFullYear now)
                         @ js ''-'' @ padStart (String_int (getMonth now + 1)) 2 (js ''0'')
                         @ js ''-'' @ padStart (String_int (getDate now)) 2 (js ''0'')
                         @ js ''_'' @ padStart (String_int (getHours now)) 2 (js ''0'')
                         @ js ''-'' @ padStart (String_int (getMinutes now)) 2 (js ''0'')
                         @ js ''-'' @ padStart (String_int (getSeconds now)) 2 (js ''0'')
                         @ js ''.json'')
           \<and> res_message r = msg_upload_ok @ name
           \<and> trace st' \<noteq> []
           \<and> last (trace st')
               = \<lparr>req_url = normalizePath (server_url c) (backup_path c) @ name,
                  req_method = js ''PUT'', req_headers = h,
                  req_body = Some (stringify env bd)\<rparr>
           \<and> (\<forall>t. four_digit_reading (new_Date (tza env) (last_backup_time c))
                    \<and> four_digit_reading (new_Date (tza env) t)
                    \<and> backup_filename (new_Date (tza env) t) = name
                  \<longrightarrow> date_key (new_Date (tza env) t)
                       = date_key (new_Date (tza env) (last_backup_time c)))
           \<and> webdav_config st'
               = (if storage_fault env (if cache st = None then Suc (storage_ops st)
                                        else storage_ops st) = None
                  then Some c else webdav_config st)"
proof -
  obtain g st0 where g: "getConfig env st = (g, st0)"
    by (cases "getConfig env st")
  obtain c0 where c0: "g = Inr c0"
    using assms(1) g by (cases g) (simp_all add: uploadBackup_def)
  have en: "enabled c0"
    using assms g c0 by (auto simp: uploadBackup_def split: if_splits)
  obtain r1 st1 where u: "upload_try env trig c0 st0 = (r1, st1)"
    by (cases "upload_try env trig c0 st0")
  have "r1 = Inr r \<and> st1 = st'"
    using assms g c0 en u by (cases r1) (auto simp: uploadBackup_def Let_def)
  then have u': "upload_try env trig c0 st0 = (Inr r, st')"
    using u by simp
  let ?T = "clock env (Suc (ticks st))"
  let ?c = "c0\<lparr>last_backup_time := ?T\<rparr>"
  let ?name = "backup_filename (new_Date (tza env) ?T)"
  have t: "ticks st0 = ticks st"
    using g by (rule getConfig_ticks)
  have w: "webdav_config st0 = webdav_config st"
    using getConfig_result [OF g] by simp
  have k: "storage_ops st0 = (if cache st = None then Suc (storage_ops st) else storage_ops st)"
    using g c0 by (simp add: getConfig_storage_ops)
  obtain h bd where s:
    "cache st' = Some ?c"
    "res_message r = msg_upload_ok @ ?name"
    "trace st' \<noteq> []"
    "last (trace st') = put_request env h c0 ?T bd"
    "if storage_fault env (storage_ops st0) = None
     then webdav_config st' = Some ?c
     else webdav_config st' = webdav_config st0"
    using upload_try_success [OF u' assms(2)] t by auto
  have n: "?name = (let now = new_Date (tza env) (last_backup_time ?c)
                      in js ''backup-'' @ String_int (getFullYear now)
                         @ js ''-'' @ padStart (String_int (getMonth now + 1)) 2 (js ''0'')
                         @ js ''-'' @ padStart (String_int (getDate now)) 2 (js ''0'')
                         @ js ''_'' @ padStart (String_int (getHours now)) 2 (js ''0'')
                         @ js ''-'' @ padStart (String_int (getMinutes now)) 2 (js ''0'')
                         @ js ''-'' @ padStart (String_int (getSeconds now)) 2 (js ''0'')
                         @ js ''.json'')"
    by (simp add: backup_filename_def Let_def)
  have p: "last (trace st')
           = \<lparr>req_url = normalizePath (server_url ?c) (backup_path ?c) @ ?name,
              req_method = js ''PUT'', req_headers = h, req_body = Some (stringify env bd)\<rparr>"
    using s(4) by (simp add: put_request_def)
  have i: "\<forall>t. four_digit_reading (new_Date (tza env) (last_backup_time ?c))
                    \<and> four_digit_reading (new_Date (tza env) t)
                    \<and> backup_filename (new_Date (tza env) t) = ?name
                  \<longrightarrow> date_key (new_Date (tza env) t)
                       = date_key (new_Date (tza env) (last_backup_time ?c))"
    using backup_filename_reading by simp
  have d: "webdav_config st'
               = (if storage_fault env (if cache st = None then Suc (storage_ops st)
                                        else storage_ops st) = None
                  then Some ?c else webdav_config st)"
    using s(5) k w by (simp split: if_splits)
  have c: "fst (getConfig env st) = Inr c0"
    using g c0 by simp
  have l: "last_backup_time ?c = ?T"
    by simp
  show ?thesis
    using c s(1) l n s(2) s(3) p i d by blast
qed

lemma example_date_later:
  "new_Date utc 1729990800999
   = \<lparr>getFullYear = 2024, getMonth = 9, getDate = 27, getHours = 1, getMinutes = 0,
      getSeconds = 0\<rparr>"
  by code_simp

lemma example_url:
  "normalizePath (js ''https://dav.example.com'') (js ''/bk'') @ js ''backup-2024-10-27_01-00-00.json''
   = js ''https://dav.example.com/bk/backup-2024-10-27_01-00-00.json''"
  by (simp add: normalizePath_def startsWith_def endsWith_def js_def)

theorem uploadBackup_single_timestamp_witness:
  "\<exists>c. cache (snd (uploadBackup (example_env (present_dir_server 201 (js ''Created'')) utc)
                       trigger_manual (example_state example_config []))) = Some c
       \<and> c = example_config\<lparr>last_backup_time := 1729990800000\<rparr>
       \<and> res_message (projr (fst (uploadBackup
               (example_env (present_dir_server 201 (js ''Created'')) utc)
               trigger_manual (example_state example_config []))))
           = msg_upload_ok @ js ''backup-2024-10-27_01-00-00.json''
       \<and> req_url (last (trace (snd (uploadBackup
               (example_env (present_dir_server 201 (js ''Created'')) utc)
               trigger_manual (example_state example_config [])))))
           = js ''https://dav.example.com/bk/backup-2024-10-27_01-00-00.json''
       \<and> date_key (new_Date utc 1729990800999) = (2024, 9, 27, 1, 0, 0)
       \<and> webdav_config (snd (uploadBackup (example_env (present_dir_server 201 (js ''Created'')) utc)
                       trigger_manual (example_state example_config []))) = Some c"
proof -
  let ?E = "example_env (present_dir_server 201 (js ''Created'')) utc"
  let ?S = "example_state example_config []"
  let ?U = "uploadBackup ?E trigger_manual ?S"
  let ?r = "\<lparr>res_success = True,
            res_message = msg_upload_ok @ js ''backup-2024-10-27_01-00-00.json'',
            res_files = None\<rparr>"
  let ?lit = "js ''backup-2024-10-27_01-00-00.json''"
  have f: "fst ?U = Inr ?r"
    by (simp add: present_dir_upload example_config_fields example_filename)
  then have h: "?U = (Inr ?r, snd ?U)"
    by (metis prod.collapse)
  have s: "res_success ?r"
    by simp
  have t: "clock ?E (Suc (ticks ?S)) = 1729990800000" "tza ?E = utc"
          "storage_fault ?E (if cache ?S = None then Suc (storage_ops ?S) else storage_ops ?S) = None"
    by (simp_all add: example_env_simps example_state_def)
  obtain c0 c h' bd name where c:
    "fst (getConfig ?E ?S) = Inr c0"
    "c = c0\<lparr>last_backup_time := 1729990800000\<rparr>"
    "cache (snd ?U) = Some c"
    "name = (let now = new_Date utc (last_backup_time c)
             in js ''backup-'' @ String_int (getFullYear now)
                @ js ''-'' @ padStart (String_int (getMonth now + 1)) 2 (js ''0'')
                @ js ''-'' @ padStart (String_int (getDate now)) 2 (js ''0'')
                @ js ''_'' @ padStart (String_int (getHours now)) 2 (js ''0'')
                @ js ''-'' @ padStart (String_int (getMinutes now)) 2 (js ''0'')
                @ js ''-'' @ padStart (String_int (getSeconds now)) 2 (js ''0'')
                @ js ''.json'')"
    "res_message ?r = msg_upload_ok @ name"
    "last (trace (snd ?U))
     = \<lparr>req_url = normalizePath (server_url c) (backup_path c) @ name,
        req_method = js ''PUT'', req_headers = h', req_body = Some (stringify ?E bd)\<rparr>"
    "\<forall>t. four_digit_reading (new_Date utc (last_backup_time c))
           \<and> four_digit_reading (new_Date utc t)
           \<and> backup_filename (new_Date utc t) = name
         \<longrightarrow> date_key (new_Date utc t) = date_key (new_Date utc (last_backup_time c))"
    "webdav_config (snd ?U) = Some c"
    using uploadBackup_single_timestamp [OF h s] unfolding t by auto
  have c0: "c0 = example_config"
    using c(1) by (simp add: example_getConfig)
  have T: "last_backup_time c = 1729990800000"
    using c(2) by simp
  have n: "name = ?lit"
    unfolding c(4) T example_date
    by (simp add: String_int_def padStart_def digits.simps js_def Let_def)
  have m: "res_message (projr (fst ?U)) = msg_upload_ok @ ?lit"
    using c(5) n f by simp
  have u: "req_url (last (trace (snd ?U)))
           = js ''https://dav.example.com/bk/backup-2024-10-27_01-00-00.json''"
    unfolding c(6) n using c(2) c0 by (simp add: example_config_fields example_url)
  have k: "date_key (new_Date utc 1729990800999) = (2024, 9, 27, 1, 0, 0)"
  proof -
    have "four_digit_reading (new_Date utc (last_backup_time c))
          \<and> four_digit_reading (new_Date utc 1729990800999)
          \<and> backup_filename (new_Date utc 1729990800999) = name"
      unfolding T n example_date example_date_later
      by (simp add: four_digit_reading_def example_filename [unfolded example_date])
    then have "date_key (new_Date utc 1729990800999)
               = date_key (new_Date utc (last_backup_time c))"
      using c(7) by blast
    then show ?thesis
      unfolding T example_date by (simp add: date_key_def)
  qed
  show ?thesis
    using c(3) c(2) c0 m u k c(8) by (intro exI [of _ c]) simp
qed

end
